theory Spec2Isabelle
  imports Main
begin

section \<open>Values of the host language\<close>

text \<open>
  The hook is JavaScript: a property may be absent (\<open>undefined\<close>), reading a property of
  \<open>undefined\<close> throws a \<open>TypeError\<close>, and \<open>a || b\<close> yields \<open>b\<close> when \<open>a\<close> is
  falsy (for a string: absent or empty).  Absent properties are \<open>None\<close>, every throw and
  every promise rejection is a value of \<open>js_error\<close>.  An object iterated with
  \<open>for ... in\<close> is an association list in insertion order; every property is taken to be
  either absent or of its documented shape.  Calls to the logger are left out.
\<close>

datatype js_error =
    Error string
  | TypeError
  | SequelizeDatabaseError string "string option"

type_synonym 'v obj = "(string \<times> 'v) list"

definition truthy :: "string option \<Rightarrow> bool" where
  "truthy v = (case v of None \<Rightarrow> False | Some s \<Rightarrow> s \<noteq> [])"

fun obj_set :: "string \<Rightarrow> 'v \<Rightarrow> 'v obj \<Rightarrow> 'v obj" where
  "obj_set k v [] = [(k, v)]"
| "obj_set k v ((k', v') # rest) =
     (if k = k' then (k, v) # rest else (k', v') # obj_set k v rest)"

definition lower_char :: "char \<Rightarrow> char" where
  "lower_char c =
     (let n = (of_char c :: nat) in if 65 \<le> n \<and> n \<le> 90 then char_of (n + 32) else c)"

definition toLowerCase :: "string \<Rightarrow> string" where
  "toLowerCase s = map lower_char s"

datatype 'f js_member = JsNull | JsUndefined | JsFunction 'f

section \<open>Data model\<close>

subsection \<open>Model definitions\<close>

record index_spec =
  idx_name :: "string option"
  idx_fields :: "string list option"
  idx_unique :: "bool option"

record model_options =
  tableName :: "string option"
  schema :: "string option"
  indexes :: "index_spec list option"
  classMethods :: "string obj"
  instanceMethods :: "string obj"

text \<open>
  What an \<open>associations\<close> function does is the sequence of association requests it
  issues.  \<open>through\<close> of a \<open>belongsToMany\<close> request is absent, a string, a model class
  (\<open>typeof\<close> gives \<open>'function'\<close>) or an object \<open>{model, unique}\<close> whose \<open>model\<close> is a
  model class (with a \<open>name\<close>) or a string.
\<close>

datatype through_model = ModelClass string | ModelName string

record through_object =
  thr_model :: "through_model option"
  thr_unique :: "bool option"

datatype through = ThroughString string | ThroughClass string | ThroughObject through_object

datatype unique_key = UniqueKeyName string | UniqueKeyFalse

record belongsToMany_options =
  btm_through :: "through option"
  btm_uniqueKey :: "unique_key option"

datatype association_call =
    BelongsToMany string belongsToMany_options
  | OtherAssociation string

record model_def =
  globalId :: string
  attributes :: "string obj"
  options :: "model_options option"
  connection :: "string option"
  datastore :: "string option"
  associations :: "association_call list js_member"
  defaultScope :: "string option js_member"

subsection \<open>Datastore configuration and connections\<close>

datatype logging = LogLevel string | LogFunction string | LogBoolean bool

record connection_options =
  opt_dialect :: "string option"
  opt_logging :: "logging option"

record datastore_config =
  adapter :: "string option"
  dialect :: "string option"
  ds_options :: "connection_options option"
  url :: "string option"
  database :: "string option"
  user :: "string option"
  password :: "string option"

text \<open>
  A \<open>Sequelize\<close> instance is known by the arguments of its constructor; \<open>seq_id\<close> stands
  for the identity of the object (one instance is built per datastore name).
\<close>

datatype sequelize_args =
    FromUrl string connection_options
  | FromCredentials "string option" "string option" "string option" connection_options

record sequelize =
  seq_id :: string
  seq_args :: sequelize_args

subsection \<open>Bound models\<close>

text \<open>
  \<open>getTableName()\<close> of a model gives a string, or for a model with a schema an object
  \<open>{tableName, schema, ...}\<close> whose \<open>toString\<close> quotes the qualified name.
\<close>

datatype table_name = TableString string | TableObject string string

record bound_model =
  bm_name :: string
  bm_sequelize :: string
  bm_attributes :: "string obj"
  bm_options :: "model_options option"
  bm_indexes :: "index_spec list option"
  bm_tableName :: table_name
  bm_statics :: "string obj"
  bm_prototype :: "string obj"
  bm_scope :: "string option"

text \<open>\<open>connection.define(name, attributes, options)\<close> belongs to the ORM: a parameter.\<close>

type_synonym define_fn = "sequelize \<Rightarrow> string \<Rightarrow> string obj \<Rightarrow> model_options \<Rightarrow> bound_model"

subsection \<open>The database\<close>

datatype sql_value = SqlString string | SqlNumber int | SqlNull

type_synonym row = "sql_value obj"

text \<open>
  What the database answers: a query, the schema listing and \<open>sync\<close> each resolve or
  reject.  The first argument is the identity of the connection.
\<close>

record database =
  db_query :: "string \<Rightarrow> string \<Rightarrow> js_error + row list"
  db_showAllSchemas :: "string \<Rightarrow> js_error + string list"
  db_sync :: "string \<Rightarrow> bool \<Rightarrow> bool \<Rightarrow> js_error option"
  db_quoteTable :: "string \<Rightarrow> string \<Rightarrow> string"

datatype db_call =
    Query string string
  | ShowAllSchemas string
  | CreateSchema string string
  | Sync string bool bool

record existing_index =
  ex_name :: "sql_value option"
  ex_definition :: "sql_value option"
  ex_columns :: "sql_value option"
  ex_unique :: "bool option"

section \<open>The overridden module loader (\<open>configure\<close>)\<close>

text \<open>
  The callback handed to \<open>originalLoadModels\<close>: \<open>Object.entries(modelDefs)\<close> throws on
  \<open>undefined\<close>; otherwise every entry passing the test of line 36 is stored under its key
  in a fresh object, which goes to \<open>cb\<close> together with \<open>err\<close>.
\<close>

definition is_waterline_model :: "model_def \<Rightarrow> bool" where
  "is_waterline_model model =
     (case options model of None \<Rightarrow> True | Some opts \<Rightarrow> tableName opts = None)"

fun detect_waterline :: "model_def obj \<Rightarrow> model_def obj \<Rightarrow> model_def obj" where
  "detect_waterline [] models = models"
| "detect_waterline ((key, model) # entries) models =
     detect_waterline entries
       (if is_waterline_model model then obj_set key model models else models)"

definition loadModels ::
  "js_error option \<Rightarrow> model_def obj option \<Rightarrow> js_error + (js_error option \<times> model_def obj)" where
  "loadModels err modelDefs =
     (case modelDefs of
        None \<Rightarrow> Inl TypeError
      | Some defs \<Rightarrow> Inr (err, detect_waterline defs []))"

section \<open>Index introspection (\<open>deduplicateIndexes\<close>)\<close>

definition pg_index :: "row \<Rightarrow> existing_index" where
  "pg_index idx =
     \<lparr>ex_name = map_of idx ''indexname'', ex_definition = map_of idx ''indexdef'',
      ex_columns = None, ex_unique = None\<rparr>"

definition mysql_index :: "row \<Rightarrow> existing_index" where
  "mysql_index idx =
     \<lparr>ex_name = map_of idx ''Key_name'', ex_definition = None,
      ex_columns = map_of idx ''Column_name'',
      ex_unique = Some (map_of idx ''Non_unique'' = Some (SqlNumber 0))\<rparr>"

definition table_to_string :: "database \<Rightarrow> table_name \<Rightarrow> string" where
  "table_to_string db tn =
     (case tn of TableString t \<Rightarrow> t | TableObject t s \<Rightarrow> db_quoteTable db s t)"

text \<open>
  The body of the \<open>try\<close> block, with the queries it issues.  In the Postgres branch
  \<open>tableName.toLowerCase()\<close> is evaluated before the query is sent and throws when the
  table name is an object.
\<close>

definition introspect ::
  "database \<Rightarrow> sequelize \<Rightarrow> table_name \<Rightarrow> string \<Rightarrow> (js_error + existing_index list) \<times> db_call list" where
  "introspect db conn tn dial =
     (if dial = ''postgres'' then
        (case tn of
           TableObject t s \<Rightarrow> (Inl TypeError, [])
         | TableString t \<Rightarrow>
             (let sql = ''SELECT indexname, indexdef FROM pg_indexes WHERE tablename = ''
                        @ [CHR 0x27] @ toLowerCase t @ [CHR 0x27]
              in (case db_query db (seq_id conn) sql of
                    Inl e \<Rightarrow> (Inl e, [Query (seq_id conn) sql])
                  | Inr result \<Rightarrow> (Inr (map pg_index result), [Query (seq_id conn) sql]))))
      else if dial = ''mysql'' then
        (let sql = ''SHOW INDEX FROM '' @ table_to_string db tn
         in (case db_query db (seq_id conn) sql of
               Inl e \<Rightarrow> (Inl e, [Query (seq_id conn) sql])
             | Inr result \<Rightarrow> (Inr (map mysql_index result), [Query (seq_id conn) sql])))
      else (Inr [], []))"

text \<open>
  The \<open>async\<close> function: \<open>Inr\<close> is the value its promise resolves with, \<open>Inl\<close> would be
  a rejection.  The \<open>catch\<close> clause turns every error of the body into \<open>[]\<close>.
\<close>

definition deduplicateIndexes ::
  "database \<Rightarrow> sequelize \<Rightarrow> table_name \<Rightarrow> string \<Rightarrow> (js_error + existing_index list) \<times> db_call list" where
  "deduplicateIndexes db conn tn dial =
     (case introspect db conn tn dial of
        (Inl err, calls) \<Rightarrow> (Inr [], calls)
      | (Inr existingIndexes, calls) \<Rightarrow> (Inr existingIndexes, calls))"

section \<open>Configuration\<close>

record sails_config =
  cfg_connections :: "datastore_config obj option"
  cfg_datastores :: "datastore_config obj option"
  cfg_models_connection :: "string option"
  cfg_models_datastore :: "string option"
  cfg_migrate :: "string option"
  cfg_smartMigrate :: bool
  cfg_dryRun :: bool
  cfg_globals_models :: bool

text \<open>\<open>sails.config.connections || sails.config.datastores\<close>: an object is always truthy.\<close>

definition configured_datastores :: "sails_config \<Rightarrow> datastore_config obj option" where
  "configured_datastores cfg =
     (case cfg_connections cfg of Some ds \<Rightarrow> Some ds | None \<Rightarrow> cfg_datastores cfg)"

text \<open>The chain \<open>a || b || ... || d\<close> over optional strings.\<close>

fun first_truthy :: "string option list \<Rightarrow> string \<Rightarrow> string" where
  "first_truthy [] d = d"
| "first_truthy (None # vs) d = first_truthy vs d"
| "first_truthy (Some s # vs) d = (if s \<noteq> [] then s else first_truthy vs d)"

definition default_connection_name :: "sails_config \<Rightarrow> string" where
  "default_connection_name cfg =
     first_truthy [cfg_models_connection cfg, cfg_models_datastore cfg] ''default''"

text \<open>
  The test of lines 104 and 340--341,
  \<open>connection.adapter || !(connection.dialect || connection.options.dialect)\<close>:
  \<open>Inr True\<close> when the entry is skipped, \<open>Inl TypeError\<close> when \<open>options\<close> is read off an
  entry that has no adapter, no dialect and no \<open>options\<close>.
\<close>

definition skip_connection :: "datastore_config \<Rightarrow> js_error + bool" where
  "skip_connection c =
     (if truthy (adapter c) then Inr True
      else if truthy (dialect c) then Inr False
      else (case ds_options c of
              None \<Rightarrow> Inl TypeError
            | Some opts \<Rightarrow> Inr (\<not> truthy (opt_dialect opts))))"

section \<open>Connection building (\<open>initConnections\<close>)\<close>

text \<open>
  \<open>sails.log[level]\<close> is a parameter: the logging function of that level, if there is
  one.  A level given as a non-empty string is replaced by it.
\<close>

definition normalize_logging :: "(string \<Rightarrow> string option) \<Rightarrow> connection_options \<Rightarrow> connection_options" where
  "normalize_logging sails_log opts =
     (case opt_logging opts of
        Some (LogLevel l) \<Rightarrow>
          (if l \<noteq> [] then opts\<lparr>opt_logging := map_option LogFunction (sails_log l)\<rparr> else opts)
      | _ \<Rightarrow> opts)"

definition new_Sequelize :: "string \<Rightarrow> datastore_config \<Rightarrow> connection_options \<Rightarrow> sequelize" where
  "new_Sequelize connectionName c opts =
     \<lparr>seq_id = connectionName,
      seq_args =
        (case url c of
           Some u \<Rightarrow>
             (if u \<noteq> [] then FromUrl u opts
              else FromCredentials (database c) (user c) (password c) opts)
         | None \<Rightarrow> FromCredentials (database c) (user c) (password c) opts)\<rparr>"

text \<open>
  The loop of lines 100--125 over the entries in order.  It yields the error thrown (if
  any), the entries as the loop leaves them (an owned entry has got its \<open>options\<close> set and
  its logging resolved, in place) and the connections built so far.
\<close>

fun connect_all ::
  "(string \<Rightarrow> string option) \<Rightarrow> datastore_config obj \<Rightarrow>
     js_error option \<times> datastore_config obj \<times> sequelize obj" where
  "connect_all sails_log [] = (None, [], [])"
| "connect_all sails_log ((connectionName, c) # rest) =
     (case skip_connection c of
        Inl e \<Rightarrow> (Some e, (connectionName, c) # rest, [])
      | Inr True \<Rightarrow>
          (case connect_all sails_log rest of
             (r, ds, conns) \<Rightarrow> (r, (connectionName, c) # ds, conns))
      | Inr False \<Rightarrow>
          (let opts = normalize_logging sails_log
                 (case ds_options c of
                    None \<Rightarrow> \<lparr>opt_dialect = None, opt_logging = None\<rparr>
                  | Some given \<Rightarrow> given);
               c' = c\<lparr>ds_options := Some opts\<rparr>
           in (case connect_all sails_log rest of
                 (r, ds, conns) \<Rightarrow>
                   (r, (connectionName, c') # ds,
                    (connectionName, new_Sequelize connectionName c' opts) # conns))))"

record init_result =
  ic_thrown :: "js_error option"
  ic_config :: sails_config
  ic_connections :: "sequelize obj"

definition store_datastores :: "sails_config \<Rightarrow> datastore_config obj \<Rightarrow> sails_config" where
  "store_datastores cfg ds =
     (case cfg_connections cfg of
        Some _ \<Rightarrow> cfg\<lparr>cfg_connections := Some ds\<rparr>
      | None \<Rightarrow> cfg\<lparr>cfg_datastores := Some ds\<rparr>)"

text \<open>
  \<open>ic_thrown = None\<close> means that \<open>initConnections\<close> returned \<open>ic_connections\<close>;
  otherwise the error was thrown, after the connections of \<open>ic_connections\<close> had been
  constructed.  \<open>hasOwnProperty.call(undefined, ...)\<close> is a \<open>TypeError\<close>.
\<close>

definition initConnections :: "(string \<Rightarrow> string option) \<Rightarrow> sails_config \<Rightarrow> init_result" where
  "initConnections sails_log cfg =
     (case configured_datastores cfg of
        None \<Rightarrow> \<lparr>ic_thrown = Some TypeError, ic_config = cfg, ic_connections = []\<rparr>
      | Some datastores \<Rightarrow>
          (let datastoreName = default_connection_name cfg in
           if map_of datastores datastoreName = None then
             \<lparr>ic_thrown = Some (Error (''Default connection '' @ [CHR 0x27] @ datastoreName
                   @ [CHR 0x27] @ '' not found in config/connections'')),
              ic_config = cfg, ic_connections = []\<rparr>
           else (case connect_all sails_log datastores of
                   (r, ds, conns) \<Rightarrow>
                     \<lparr>ic_thrown = r, ic_config = store_datastores cfg ds,
                      ic_connections = conns\<rparr>)))"

section \<open>Model binding (\<open>defineModels\<close>)\<close>

text \<open>
  The value of \<open>Sequelize.Model.belongsToMany\<close>: the ORM's own method, or the wrapper of
  lines 224--252 closed over the method it has captured.
\<close>

datatype belongsToMany_fn = OriginalBelongsToMany | Intercepting belongsToMany_fn

text \<open>
  The state the passes work on: \<open>sails.models\<close>, the names exposed on \<open>global\<close>, the
  current \<open>Sequelize.Model.belongsToMany\<close>, and the \<open>belongsToMany\<close> requests that have
  reached the ORM's own method (target and options as it received them).
\<close>

record hook_state =
  sails_models :: "bound_model obj"
  exposed :: "string list"
  belongsToMany :: belongsToMany_fn
  associated :: "(string \<times> belongsToMany_options) list"

record sequelize_lib =
  sequelizeMajVersion :: nat
  seq_define :: define_fn

subsection \<open>First pass: define models\<close>

definition assign_all :: "string obj \<Rightarrow> string obj \<Rightarrow> string obj" where
  "assign_all src dst = fold (\<lambda>(k, v). obj_set k v) src dst"

definition model_connection_name :: "sails_config \<Rightarrow> model_def \<Rightarrow> string" where
  "model_connection_name cfg modelDef =
     first_truthy [connection modelDef, datastore modelDef] (default_connection_name cfg)"

text \<open>The model class of lines 154--166: defined, then given the extension methods.\<close>

definition model_class :: "sequelize_lib \<Rightarrow> sequelize \<Rightarrow> model_def \<Rightarrow> model_options \<Rightarrow> bound_model" where
  "model_class lib conn modelDef opts =
     (let defined = seq_define lib conn (globalId modelDef) (attributes modelDef) opts
      in if 4 \<le> sequelizeMajVersion lib then
           defined\<lparr>bm_statics := assign_all (classMethods opts) (bm_statics defined),
                   bm_prototype := assign_all (instanceMethods opts) (bm_prototype defined)\<rparr>
         else defined)"

definition define_model ::
  "sequelize_lib \<Rightarrow> sails_config \<Rightarrow> sequelize obj \<Rightarrow> model_def \<Rightarrow> hook_state \<Rightarrow> js_error + hook_state" where
  "define_model lib cfg connections modelDef st =
     (case options modelDef of
        None \<Rightarrow> Inr st
      | Some opts \<Rightarrow>
          (case map_of connections (model_connection_name cfg modelDef) of
             None \<Rightarrow> Inl TypeError
           | Some conn \<Rightarrow>
               Inr (st\<lparr>exposed :=
                         (if cfg_globals_models cfg then exposed st @ [globalId modelDef]
                          else exposed st),
                       sails_models :=
                         obj_set (toLowerCase (globalId modelDef))
                           (model_class lib conn modelDef opts) (sails_models st)\<rparr>)))"

fun first_pass ::
  "sequelize_lib \<Rightarrow> sails_config \<Rightarrow> sequelize obj \<Rightarrow> model_def obj \<Rightarrow> hook_state \<Rightarrow> js_error + hook_state" where
  "first_pass lib cfg connections [] st = Inr st"
| "first_pass lib cfg connections ((modelName, modelDef) # rest) st =
     (case define_model lib cfg connections modelDef st of
        Inl e \<Rightarrow> Inl e
      | Inr st' \<Rightarrow> first_pass lib cfg connections rest st')"

subsection \<open>Second pass: associations and default scopes\<close>

definition has_non_unique_index :: "index_spec list \<Rightarrow> bool" where
  "has_non_unique_index ixs =
     list_ex (\<lambda>idx. idx_unique idx = Some False \<and>
                (case idx_fields idx of None \<Rightarrow> False | Some fs \<Rightarrow> length fs = 2)) ixs"

text \<open>
  \<open>(options.through.model.name || options.through.model).toLowerCase()\<close>: a model
  class without a name is not a string and has no \<open>toLowerCase\<close>.
\<close>

definition through_model_key :: "through_model \<Rightarrow> js_error + string" where
  "through_model_key m =
     (case m of
        ModelClass n \<Rightarrow> (if n \<noteq> [] then Inr (toLowerCase n) else Inl TypeError)
      | ModelName s \<Rightarrow> Inr (toLowerCase s))"

definition through_has_non_unique_index :: "bound_model obj \<Rightarrow> through_object \<Rightarrow> js_error + bool" where
  "through_has_non_unique_index models thr =
     (case thr_model thr of
        None \<Rightarrow> Inr False
      | Some m \<Rightarrow>
          (if m = ModelName [] then Inr False
           else (case through_model_key m of
                   Inl e \<Rightarrow> Inl e
                 | Inr key \<Rightarrow>
                     Inr (case map_of models key of
                            None \<Rightarrow> False
                          | Some throughModelDef \<Rightarrow>
                              (case bm_options throughModelDef of
                                 None \<Rightarrow> False
                               | Some opts \<Rightarrow>
                                   (case indexes opts of
                                      None \<Rightarrow> False
                                    | Some ixs \<Rightarrow> has_non_unique_index ixs))))))"

text \<open>The options as the wrapper hands them on to the method it has captured.\<close>

definition intercepted_options ::
  "bound_model obj \<Rightarrow> belongsToMany_options \<Rightarrow> js_error + belongsToMany_options" where
  "intercepted_options models opts =
     (case btm_through opts of
        Some (ThroughObject thr) \<Rightarrow>
          (case through_has_non_unique_index models thr of
             Inl e \<Rightarrow> Inl e
           | Inr hasNonUniqueIndex \<Rightarrow>
               Inr (if hasNonUniqueIndex \<or> thr_unique thr = Some False
                    then opts\<lparr>btm_uniqueKey := Some UniqueKeyFalse\<rparr> else opts))
      | _ \<Rightarrow> Inr opts)"

fun call_belongsToMany ::
  "belongsToMany_fn \<Rightarrow> bound_model obj \<Rightarrow> belongsToMany_options \<Rightarrow> js_error + belongsToMany_options" where
  "call_belongsToMany OriginalBelongsToMany models opts = Inr opts"
| "call_belongsToMany (Intercepting originalBelongsToMany) models opts =
     (case intercepted_options models opts of
        Inl e \<Rightarrow> Inl e
      | Inr opts' \<Rightarrow> call_belongsToMany originalBelongsToMany models opts')"

fun run_associations :: "association_call list \<Rightarrow> hook_state \<Rightarrow> js_error + hook_state" where
  "run_associations [] st = Inr st"
| "run_associations (BelongsToMany target opts # calls) st =
     (case call_belongsToMany (belongsToMany st) (sails_models st) opts of
        Inl e \<Rightarrow> Inl e
      | Inr opts' \<Rightarrow> run_associations calls (st\<lparr>associated := associated st @ [(target, opts')]\<rparr>))"
| "run_associations (OtherAssociation kind # calls) st = run_associations calls st"

definition setAssociation :: "model_def \<Rightarrow> hook_state \<Rightarrow> js_error + hook_state" where
  "setAssociation modelDef st =
     (case associations modelDef of
        JsFunction calls \<Rightarrow>
          (let originalBelongsToMany = belongsToMany st
           in (case run_associations calls (st\<lparr>belongsToMany := Intercepting originalBelongsToMany\<rparr>) of
                 Inl e \<Rightarrow> Inl e
               | Inr st' \<Rightarrow> Inr (st'\<lparr>belongsToMany := originalBelongsToMany\<rparr>)))
      | _ \<Rightarrow> Inr st)"

definition setDefaultScope :: "model_def \<Rightarrow> hook_state \<Rightarrow> js_error + hook_state" where
  "setDefaultScope modelDef st =
     (case defaultScope modelDef of
        JsFunction result \<Rightarrow>
          (let key = toLowerCase (globalId modelDef)
           in (case map_of (sails_models st) key of
                 None \<Rightarrow> Inl TypeError
               | Some model \<Rightarrow>
                   Inr (st\<lparr>sails_models :=
                          obj_set key
                            (model\<lparr>bm_scope := Some (case result of None \<Rightarrow> ''{}'' | Some s \<Rightarrow> s)\<rparr>)
                            (sails_models st)\<rparr>)))
      | _ \<Rightarrow> Inr st)"

fun second_pass :: "model_def obj \<Rightarrow> hook_state \<Rightarrow> js_error + hook_state" where
  "second_pass [] st = Inr st"
| "second_pass ((modelName, modelDef) # rest) st =
     (case options modelDef of
        None \<Rightarrow> second_pass rest st
      | Some opts \<Rightarrow>
          (case setAssociation modelDef st of
             Inl e \<Rightarrow> Inl e
           | Inr st1 \<Rightarrow>
               (case setDefaultScope modelDef st1 of
                  Inl e \<Rightarrow> Inl e
                | Inr st2 \<Rightarrow> second_pass rest st2)))"

subsection \<open>Third pass: non-unique indexes of junction tables\<close>

text \<open>
  The callback of \<open>forEach\<close> (lines 197--211).  \<open>JSON.stringify\<close> of two field lists is
  the same string exactly when the lists are equal, and \<open>JSON.stringify(undefined)\<close> is
  no string.
\<close>

definition queue_index :: "index_spec \<Rightarrow> bound_model \<Rightarrow> bound_model" where
  "queue_index index model =
     (if idx_unique index = Some False \<and>
         (case idx_fields index of None \<Rightarrow> False | Some fs \<Rightarrow> 2 \<le> length fs)
      then
        (let pending = (case bm_indexes model of None \<Rightarrow> [] | Some p \<Rightarrow> p);
             exists = list_ex (\<lambda>idx. idx_fields idx = idx_fields index) pending
         in model\<lparr>bm_indexes := Some (if exists then pending else pending @ [index])\<rparr>)
      else model)"

definition queue_indexes :: "model_def \<Rightarrow> hook_state \<Rightarrow> hook_state" where
  "queue_indexes modelDef st =
     (case options modelDef of
        None \<Rightarrow> st
      | Some opts \<Rightarrow>
          (case indexes opts of
             None \<Rightarrow> st
           | Some ixs \<Rightarrow>
               (let key = toLowerCase (globalId modelDef)
                in (case map_of (sails_models st) key of
                      None \<Rightarrow> st
                    | Some model \<Rightarrow>
                        st\<lparr>sails_models :=
                             obj_set key (fold queue_index ixs model) (sails_models st)\<rparr>))))"

fun third_pass :: "model_def obj \<Rightarrow> hook_state \<Rightarrow> hook_state" where
  "third_pass [] st = st"
| "third_pass ((modelName, modelDef) # rest) st = third_pass rest (queue_indexes modelDef st)"

definition defineModels ::
  "sequelize_lib \<Rightarrow> sails_config \<Rightarrow> sequelize obj \<Rightarrow> model_def obj \<Rightarrow> hook_state \<Rightarrow> js_error + hook_state" where
  "defineModels lib cfg connections models st =
     (case first_pass lib cfg connections models st of
        Inl e \<Rightarrow> Inl e
      | Inr st1 \<Rightarrow>
          (case second_pass models st1 of
             Inl e \<Rightarrow> Inl e
           | Inr st2 \<Rightarrow> Inr (third_pass models st2)))"

section \<open>Schema convergence (\<open>migrateSchema\<close>)\<close>

text \<open>The \<open>switch\<close> of lines 317--329: \<open>(forceSyncFlag, alterFlag)\<close>.\<close>

definition sync_flags :: "string option \<Rightarrow> bool \<times> bool" where
  "sync_flags migrate =
     (if migrate = Some ''drop'' then (True, False)
      else if migrate = Some ''alter'' then (False, True)
      else (False, False))"

text \<open>\<open>connectionDescription.dialect || connectionDescription.options.dialect\<close>.\<close>

definition connection_dialect :: "datastore_config \<Rightarrow> string option" where
  "connection_dialect c =
     (if truthy (dialect c) then dialect c
      else (case ds_options c of None \<Rightarrow> None | Some opts \<Rightarrow> opt_dialect opts))"

text \<open>
  What is pushed on \<open>syncTasks\<close>: the \<open>async\<close> arrow function of lines 356--400 itself
  (for the named connection), the promise of \<open>showAllSchemas().then(...)\<close>, or the
  promise of a \<open>sync\<close> call.
\<close>

datatype sync_task = AsyncFunction string | SchemasThen sequelize | SyncPromise sequelize

text \<open>
  The body of the loop of lines 334--423 for one datastore: the error it throws (if
  any), the tasks it pushes and the database calls it issues at once.
\<close>

definition start_task ::
  "sails_config \<Rightarrow> bool \<Rightarrow> bool \<Rightarrow> sequelize obj \<Rightarrow> string \<Rightarrow> datastore_config \<Rightarrow>
     js_error option \<times> sync_task list \<times> db_call list" where
  "start_task cfg forceSyncFlag alterFlag connections connectionName connectionDescription =
     (case skip_connection connectionDescription of
        Inl e \<Rightarrow> (Some e, [], [])
      | Inr True \<Rightarrow> (None, [], [])
      | Inr False \<Rightarrow>
          (if cfg_dryRun cfg then (None, [], [])
           else if cfg_smartMigrate cfg \<and> alterFlag then
             (None, [AsyncFunction connectionName], [])
           else if connection_dialect connectionDescription = Some ''postgres'' then
             (case map_of connections connectionName of
                None \<Rightarrow> (Some TypeError, [], [])
              | Some conn \<Rightarrow> (None, [SchemasThen conn], [ShowAllSchemas (seq_id conn)]))
           else
             (case map_of connections connectionName of
                None \<Rightarrow> (Some TypeError, [], [])
              | Some conn \<Rightarrow>
                  (None, [SyncPromise conn], [Sync (seq_id conn) forceSyncFlag alterFlag]))))"

fun start_tasks ::
  "sails_config \<Rightarrow> bool \<Rightarrow> bool \<Rightarrow> sequelize obj \<Rightarrow> datastore_config obj \<Rightarrow>
     js_error option \<times> sync_task list \<times> db_call list" where
  "start_tasks cfg forceSyncFlag alterFlag connections [] = (None, [], [])"
| "start_tasks cfg forceSyncFlag alterFlag connections ((cn, connectionDescription) # rest) =
     (case start_task cfg forceSyncFlag alterFlag connections cn connectionDescription of
        (Some e, tasks, calls) \<Rightarrow> (Some e, tasks, calls)
      | (None, tasks, calls) \<Rightarrow>
          (case start_tasks cfg forceSyncFlag alterFlag connections rest of
             (r, tasks', calls') \<Rightarrow> (r, tasks @ tasks', calls @ calls')))"

text \<open>
  The loop of lines 405--413 inside the \<open>then\<close> callback: \<open>modelDef.options.schema\<close> is
  read off every model definition.  \<open>createSchema\<close> is called and not awaited.
\<close>

fun create_schemas :: "string \<Rightarrow> model_def obj \<Rightarrow> string list \<Rightarrow> js_error option \<times> db_call list" where
  "create_schemas cid [] schemas = (None, [])"
| "create_schemas cid ((modelName, modelDef) # rest) schemas =
     (case options modelDef of
        None \<Rightarrow> (Some TypeError, [])
      | Some opts \<Rightarrow>
          (let tableSchema = (case schema opts of None \<Rightarrow> [] | Some s \<Rightarrow> s)
           in if tableSchema \<noteq> [] \<and> tableSchema \<notin> set schemas then
                (case create_schemas cid rest (schemas @ [tableSchema]) of
                   (r, calls) \<Rightarrow> (r, CreateSchema cid tableSchema # calls))
              else create_schemas cid rest schemas))"

text \<open>
  How one element of \<open>syncTasks\<close> settles under \<open>Promise.all\<close>, with the database calls
  made on the way: \<open>None\<close> is fulfilment, \<open>Some e\<close> rejection with \<open>e\<close>.  An element that
  is not a promise counts as fulfilled with itself: the function is not called.
\<close>

definition settle ::
  "database \<Rightarrow> bool \<Rightarrow> bool \<Rightarrow> model_def obj \<Rightarrow> sync_task \<Rightarrow> js_error option \<times> db_call list" where
  "settle db forceSyncFlag alterFlag models task =
     (case task of
        AsyncFunction connectionName \<Rightarrow> (None, [])
      | SyncPromise conn \<Rightarrow> (db_sync db (seq_id conn) forceSyncFlag alterFlag, [])
      | SchemasThen conn \<Rightarrow>
          (case db_showAllSchemas db (seq_id conn) of
             Inl e \<Rightarrow> (Some e, [])
           | Inr schemas \<Rightarrow>
               (case create_schemas (seq_id conn) models schemas of
                  (Some e, calls) \<Rightarrow> (Some e, calls)
                | (None, calls) \<Rightarrow>
                    (db_sync db (seq_id conn) forceSyncFlag alterFlag,
                     calls @ [Sync (seq_id conn) forceSyncFlag alterFlag]))))"

text \<open>
  \<open>Promise.all\<close>: every task runs to its end; the result is the rejection of the first
  task (in the order of the list) that rejects, if there is one.
\<close>

fun promise_all ::
  "database \<Rightarrow> bool \<Rightarrow> bool \<Rightarrow> model_def obj \<Rightarrow> sync_task list \<Rightarrow> js_error option \<times> db_call list" where
  "promise_all db forceSyncFlag alterFlag models [] = (None, [])"
| "promise_all db forceSyncFlag alterFlag models (task # tasks) =
     (case settle db forceSyncFlag alterFlag models task of
        (r, calls) \<Rightarrow>
          (case promise_all db forceSyncFlag alterFlag models tasks of
             (r', calls') \<Rightarrow> ((case r of Some e \<Rightarrow> Some e | None \<Rightarrow> r'), calls @ calls')))"

text \<open>
  \<open>Thrown e\<close>: the error left \<open>migrateSchema\<close> and \<open>next\<close> was not called.
  \<open>NextCalled None\<close> is \<open>next()\<close>, \<open>NextCalled (Some e)\<close> is \<open>next(e)\<close>.
\<close>

datatype outcome = Thrown js_error | NextCalled "js_error option"

record migrate_result =
  ms_outcome :: outcome
  ms_tasks :: "sync_task list"
  ms_calls :: "db_call list"

definition migrateSchema ::
  "database \<Rightarrow> sails_config \<Rightarrow> sequelize obj \<Rightarrow> model_def obj \<Rightarrow> migrate_result" where
  "migrateSchema db cfg connections models =
     (if cfg_migrate cfg = Some ''safe'' then
        \<lparr>ms_outcome = NextCalled None, ms_tasks = [], ms_calls = []\<rparr>
      else
        (case sync_flags (cfg_migrate cfg) of
           (forceSyncFlag, alterFlag) \<Rightarrow>
             (case start_tasks cfg forceSyncFlag alterFlag connections
                     (case configured_datastores cfg of None \<Rightarrow> [] | Some ds \<Rightarrow> ds) of
                (Some e, syncTasks, calls) \<Rightarrow>
                  \<lparr>ms_outcome = Thrown e, ms_tasks = syncTasks, ms_calls = calls\<rparr>
              | (None, syncTasks, calls) \<Rightarrow>
                  (if cfg_dryRun cfg then
                     \<lparr>ms_outcome = NextCalled None, ms_tasks = syncTasks, ms_calls = calls\<rparr>
                   else
                     (case promise_all db forceSyncFlag alterFlag models syncTasks of
                        (r, calls') \<Rightarrow>
                          \<lparr>ms_outcome = NextCalled r, ms_tasks = syncTasks,
                           ms_calls = calls @ calls'\<rparr>)))))"

subsection \<open>The body of the smart-migration task\<close>

text \<open>
  What the \<open>async\<close> function of lines 356--400 does when it is called.
  \<open>migrateSchema\<close> pushes the function and never calls it.
\<close>

fun join_with :: "string \<Rightarrow> string list \<Rightarrow> string" where
  "join_with sep [] = []"
| "join_with sep [x] = x"
| "join_with sep (x # y # ys) = x @ sep @ join_with sep (y # ys)"

definition index_name :: "database \<Rightarrow> table_name \<Rightarrow> index_spec \<Rightarrow> js_error + string" where
  "index_name db tn idx =
     (case idx_name idx of
        Some n \<Rightarrow>
          (if n \<noteq> [] then Inr n
           else (case idx_fields idx of
                   None \<Rightarrow> Inl TypeError
                 | Some fs \<Rightarrow> Inr (table_to_string db tn @ ''_'' @ join_with ''_'' fs)))
      | None \<Rightarrow>
          (case idx_fields idx of
             None \<Rightarrow> Inl TypeError
           | Some fs \<Rightarrow> Inr (table_to_string db tn @ ''_'' @ join_with ''_'' fs)))"

fun new_indexes ::
  "database \<Rightarrow> table_name \<Rightarrow> existing_index list \<Rightarrow> index_spec list \<Rightarrow> js_error + index_spec list" where
  "new_indexes db tn existingIndexes [] = Inr []"
| "new_indexes db tn existingIndexes (idx # rest) =
     (case index_name db tn idx of
        Inl e \<Rightarrow> Inl e
      | Inr indexName \<Rightarrow>
          (case new_indexes db tn existingIndexes rest of
             Inl e \<Rightarrow> Inl e
           | Inr newIndexes \<Rightarrow>
               Inr (if list_ex (\<lambda>existing. ex_name existing = Some (SqlString indexName))
                         existingIndexes
                    then newIndexes else idx # newIndexes)))"

definition dedupe_model ::
  "database \<Rightarrow> sequelize \<Rightarrow> string \<Rightarrow> bound_model \<Rightarrow> (js_error + bound_model) \<times> db_call list" where
  "dedupe_model db conn dial model =
     (case deduplicateIndexes db conn (bm_tableName model) dial of
        (Inl e, calls) \<Rightarrow> (Inl e, calls)
      | (Inr existingIndexes, calls) \<Rightarrow>
          (case bm_indexes model of
             None \<Rightarrow> (Inr model, calls)
           | Some pending \<Rightarrow>
               (if pending = [] then (Inr model, calls)
                else (case new_indexes db (bm_tableName model) existingIndexes pending of
                        Inl e \<Rightarrow> (Inl e, calls)
                      | Inr newIndexes \<Rightarrow> (Inr (model\<lparr>bm_indexes := Some newIndexes\<rparr>), calls)))))"

fun dedupe_models ::
  "database \<Rightarrow> sequelize \<Rightarrow> string \<Rightarrow> model_def obj \<Rightarrow> bound_model obj \<Rightarrow>
     js_error option \<times> db_call list \<times> bound_model obj" where
  "dedupe_models db conn dial [] sm = (None, [], sm)"
| "dedupe_models db conn dial ((modelName, modelDef) # rest) sm =
     (case options modelDef of
        None \<Rightarrow> dedupe_models db conn dial rest sm
      | Some opts \<Rightarrow>
          (case map_of sm (toLowerCase (globalId modelDef)) of
             None \<Rightarrow> dedupe_models db conn dial rest sm
           | Some model \<Rightarrow>
               (case dedupe_model db conn dial model of
                  (Inl e, calls) \<Rightarrow> (Some e, calls, sm)
                | (Inr model', calls) \<Rightarrow>
                    (case dedupe_models db conn dial rest
                            (obj_set (toLowerCase (globalId modelDef)) model' sm) of
                       (r, calls', sm') \<Rightarrow> (r, calls @ calls', sm')))))"

definition smart_sync_task ::
  "database \<Rightarrow> sequelize obj \<Rightarrow> string \<Rightarrow> string \<Rightarrow> bool \<Rightarrow> bool \<Rightarrow> model_def obj \<Rightarrow>
     bound_model obj \<Rightarrow> js_error option \<times> db_call list \<times> bound_model obj" where
  "smart_sync_task db connections syncConnectionName dial forceSyncFlag alterFlag models sm =
     (case map_of connections syncConnectionName of
        None \<Rightarrow> (Some TypeError, [], sm)
      | Some conn \<Rightarrow>
          (case dedupe_models db conn dial models sm of
             (Some e, calls, sm') \<Rightarrow> (Some e, calls, sm')
           | (None, calls, sm') \<Rightarrow>
               (db_sync db (seq_id conn) forceSyncFlag alterFlag,
                calls @ [Sync (seq_id conn) forceSyncFlag alterFlag], sm')))"

section \<open>Worked configurations\<close>

text \<open>
  The inputs of the scenarios below: a Postgres datastore \<open>main\<close>, an owned model
  \<open>User\<close> with empty \<open>options\<close>, a definition without \<open>options\<close>, a database in which
  no table exists yet, and one possible behaviour of the ORM's \<open>define\<close>.
\<close>

definition postgres_entry :: datastore_config where
  "postgres_entry =
     \<lparr>adapter = None, dialect = Some ''postgres'',
      ds_options = Some \<lparr>opt_dialect = Some ''postgres'', opt_logging = None\<rparr>,
      url = None, database = Some ''app'', user = Some ''postgres'', password = None\<rparr>"

definition empty_entry :: datastore_config where
  "empty_entry =
     \<lparr>adapter = None, dialect = None, ds_options = None, url = None, database = None,
      user = None, password = None\<rparr>"

definition main_config :: "string \<Rightarrow> bool \<Rightarrow> bool \<Rightarrow> sails_config" where
  "main_config migrate smartMigrate dryRun =
     \<lparr>cfg_connections = None, cfg_datastores = Some [(''main'', postgres_entry)],
      cfg_models_connection = Some ''main'', cfg_models_datastore = None,
      cfg_migrate = Some migrate, cfg_smartMigrate = smartMigrate, cfg_dryRun = dryRun,
      cfg_globals_models = False\<rparr>"

definition unconfigured :: sails_config where
  "unconfigured =
     \<lparr>cfg_connections = None, cfg_datastores = Some [(''default'', empty_entry)],
      cfg_models_connection = None, cfg_models_datastore = None,
      cfg_migrate = Some ''alter'', cfg_smartMigrate = False, cfg_dryRun = False,
      cfg_globals_models = False\<rparr>"

definition main_sequelize :: sequelize where
  "main_sequelize =
     \<lparr>seq_id = ''main'',
      seq_args = FromCredentials (Some ''app'') (Some ''postgres'') None
                   \<lparr>opt_dialect = Some ''postgres'', opt_logging = None\<rparr>\<rparr>"

definition no_options :: model_options where
  "no_options =
     \<lparr>tableName = None, schema = None, indexes = None, classMethods = [],
      instanceMethods = []\<rparr>"

definition owned_model :: "string \<Rightarrow> model_options \<Rightarrow> model_def" where
  "owned_model name opts =
     \<lparr>globalId = name, attributes = [], options = Some opts, connection = None,
      datastore = None, associations = JsUndefined, defaultScope = JsUndefined\<rparr>"

definition waterline_model :: "string \<Rightarrow> model_def" where
  "waterline_model name =
     \<lparr>globalId = name, attributes = [], options = None, connection = None,
      datastore = None, associations = JsUndefined, defaultScope = JsUndefined\<rparr>"

definition plain_define :: define_fn where
  "plain_define conn name attrs opts =
     \<lparr>bm_name = name, bm_sequelize = seq_id conn, bm_attributes = attrs,
      bm_options = Some opts, bm_indexes = None,
      bm_tableName = TableString (case tableName opts of None \<Rightarrow> name | Some t \<Rightarrow> t),
      bm_statics = [], bm_prototype = [], bm_scope = None\<rparr>"

definition plain_lib :: sequelize_lib where
  "plain_lib = \<lparr>sequelizeMajVersion = 5, seq_define = plain_define\<rparr>"

definition empty_database :: database where
  "empty_database =
     \<lparr>db_query = (\<lambda>cid sql. Inl (SequelizeDatabaseError ''relation does not exist'' None)),
      db_showAllSchemas = (\<lambda>cid. Inr [''public'']),
      db_sync = (\<lambda>cid forceSyncFlag alterFlag. None),
      db_quoteTable = (\<lambda>s t. s @ ''.'' @ t)\<rparr>"

definition initial_state :: hook_state where
  "initial_state =
     \<lparr>sails_models = [], exposed = [], belongsToMany = OriginalBelongsToMany,
      associated = []\<rparr>"

text \<open>
  Equality of two index specifications in the words of the specification: structural on
  the ordered \<open>fields\<close> plus the \<open>unique\<close> flag.
\<close>

definition index_spec_equal :: "index_spec \<Rightarrow> index_spec \<Rightarrow> bool" where
  "index_spec_equal a b = (idx_fields a = idx_fields b \<and> idx_unique a = idx_unique b)"

definition pair_index :: "string \<Rightarrow> string \<Rightarrow> bool \<Rightarrow> index_spec" where
  "pair_index a b u = \<lparr>idx_name = None, idx_fields = Some [a, b], idx_unique = Some u\<rparr>"

definition junction_model :: "index_spec list \<Rightarrow> bound_model" where
  "junction_model pending =
     (plain_define main_sequelize ''UserRole'' [] no_options)\<lparr>bm_indexes := Some pending\<rparr>"

text \<open>The \<open>belongsToMany\<close> requests among the calls of an \<open>associations\<close> function.\<close>

fun belongsToMany_requests :: "association_call list \<Rightarrow> (string \<times> belongsToMany_options) list" where
  "belongsToMany_requests [] = []"
| "belongsToMany_requests (BelongsToMany target opts # calls) =
     (target, opts) # belongsToMany_requests calls"
| "belongsToMany_requests (OtherAssociation kind # calls) = belongsToMany_requests calls"

definition through_UserRole :: belongsToMany_options where
  "through_UserRole =
     \<lparr>btm_through = Some (ThroughObject \<lparr>thr_model = Some (ModelName ''UserRole''), thr_unique = None\<rparr>),
      btm_uniqueKey = None\<rparr>"

definition user_with_roles :: model_def where
  "user_with_roles =
     (owned_model ''User'' no_options)
       \<lparr>associations := JsFunction [OtherAssociation ''hasMany'', BelongsToMany ''Role'' through_UserRole]\<rparr>"

definition junction_options :: model_options where
  "junction_options = no_options\<lparr>indexes := Some [pair_index ''userId'' ''roleId'' False]\<rparr>"

definition junction_state :: hook_state where
  "junction_state =
     initial_state\<lparr>sails_models :=
       [(''userrole'', plain_define main_sequelize ''UserRole'' [] junction_options)]\<rparr>"

section \<open>Properties\<close>

lemma obj_set_fresh:
  "k \<notin> fst ` set obj \<Longrightarrow> obj_set k v obj = obj @ [(k, v)]"
  by (induction obj) auto

lemma detect_waterline_filter:
  "distinct (map fst entries) \<Longrightarrow> fst ` set acc \<inter> fst ` set entries = {} \<Longrightarrow>
   detect_waterline entries acc = acc @ filter (\<lambda>(key, model). is_waterline_model model) entries"
proof (induction entries arbitrary: acc)
  case Nil
  then show ?case by simp
next
  case (Cons entry entries)
  obtain key model where entry: "entry = (key, model)" by (cases entry)
  show ?case
  proof (cases "is_waterline_model model")
    case True
    have fresh: "key \<notin> fst ` set acc" using Cons.prems(2) entry by auto
    have "fst ` set (acc @ [(key, model)]) \<inter> fst ` set entries = {}"
      using Cons.prems entry by auto
    with Cons.IH [of "acc @ [(key, model)]"] Cons.prems(1) entry True fresh
    show ?thesis by (simp add: obj_set_fresh)
  next
    case False
    have "fst ` set acc \<inter> fst ` set entries = {}" using Cons.prems(2) by auto
    with Cons.IH [of acc] Cons.prems(1) entry False show ?thesis by simp
  qed
qed

lemma map_of_obj_set_same: "map_of (obj_set k v obj) k = Some v"
  by (induction obj) auto

lemma map_of_obj_set_other: "k' \<noteq> k \<Longrightarrow> map_of (obj_set k v obj) k' = map_of obj k'"
  by (induction obj) auto

lemma define_model_owned:
  "options model = Some opts \<Longrightarrow>
   map_of connections (model_connection_name cfg model) = Some conn \<Longrightarrow>
   \<exists>st'. define_model lib cfg connections model st = Inr st' \<and>
     map_of (sails_models st') (toLowerCase (globalId model)) = Some (model_class lib conn model opts)"
  by (simp add: define_model_def map_of_obj_set_same)

lemma lower_User: "toLowerCase ''User'' = ''user''"
  by code_simp

lemma lower_UserRole: "toLowerCase ''UserRole'' = ''userrole''"
  by code_simp

lemma lower_USER: "toLowerCase ''USER'' = ''user''"
  by code_simp

subsection \<open>Index introspection\<close>

text \<open>
  Claim C9.  \<open>deduplicateIndexes\<close> never rejects: its promise always resolves with a
  list.  For a dialect other than \<open>postgres\<close> and \<open>mysql\<close> that list is empty and no
  query is sent; whenever a query it sends fails, the list is empty as well.
\<close>

theorem deduplicateIndexes_never_rejects:
  "(\<exists>existingIndexes. fst (deduplicateIndexes db conn tn dial) = Inr existingIndexes) \<and>
   (dial \<noteq> ''postgres'' \<and> dial \<noteq> ''mysql'' \<longrightarrow>
      deduplicateIndexes db conn tn dial = (Inr [], [])) \<and>
   (\<forall>cid sql e. Query cid sql \<in> set (snd (deduplicateIndexes db conn tn dial)) \<and>
        db_query db cid sql = Inl e \<longrightarrow>
      fst (deduplicateIndexes db conn tn dial) = Inr [])"
  by (auto simp: deduplicateIndexes_def introspect_def Let_def
           split: prod.splits sum.splits table_name.splits)

theorem deduplicateIndexes_never_rejects_witness:
  "fst (deduplicateIndexes empty_database main_sequelize (TableString ''User'') ''postgres'') = Inr [] \<and>
   deduplicateIndexes empty_database main_sequelize (TableString ''User'') ''sqlite'' = (Inr [], [])"
proof -
  let ?pg = "deduplicateIndexes empty_database main_sequelize (TableString ''User'') ''postgres''"
  have "\<exists>sql. snd ?pg = [Query ''main'' sql]"
    unfolding deduplicateIndexes_def introspect_def Let_def empty_database_def main_sequelize_def
    by simp
  then obtain sql where issued: "Query ''main'' sql \<in> set (snd ?pg)" by auto
  have fails: "db_query empty_database ''main'' sql
                 = Inl (SequelizeDatabaseError ''relation does not exist'' None)"
    by (simp add: empty_database_def)
  have pg: "fst ?pg = Inr []"
    using deduplicateIndexes_never_rejects
      [of empty_database main_sequelize "TableString ''User''" "''postgres''",
       THEN conjunct2, THEN conjunct2, rule_format, of "''main''" sql] issued fails
    by simp
  have other: "''sqlite'' \<noteq> ''postgres'' \<and> ''sqlite'' \<noteq> ''mysql''" by simp
  have lite: "deduplicateIndexes empty_database main_sequelize (TableString ''User'') ''sqlite''
                = (Inr [], [])"
    using deduplicateIndexes_never_rejects
      [of empty_database main_sequelize "TableString ''User''" "''sqlite''",
       THEN conjunct2, THEN conjunct1, rule_format] other
    by simp
  from pg lite show ?thesis by simp
qed

subsection \<open>The junction-index pass\<close>

text \<open>
  Claim C6, as amended.  An index entry with \<open>unique: false\<close> and at least two fields is
  appended to the pending list of the model exactly when no pending index has the same
  ordered \<open>fields\<close>; neither the \<open>unique\<close> flag nor the name of a pending index is
  compared.  When a pending index has the same fields, the pending list stays as it is.
\<close>

theorem queue_index_by_fields:
  assumes "idx_unique index = Some False" and "idx_fields index = Some fs" and "2 \<le> length fs"
    and "pending = (case bm_indexes model of None \<Rightarrow> [] | Some p \<Rightarrow> p)"
  shows "(bm_indexes (queue_index index model) = Some (pending @ [index]))
           = (\<not> (\<exists>idx \<in> set pending. idx_fields idx = Some fs)) \<and>
         ((\<exists>idx \<in> set pending. idx_fields idx = Some fs) \<longrightarrow>
            bm_indexes (queue_index index model) = Some pending)"
  using assms by (auto simp: queue_index_def Let_def list_ex_iff split: option.splits)

theorem queue_index_by_fields_witness:
  "bm_indexes (queue_index (pair_index ''userId'' ''roleId'' False)
       (junction_model [pair_index ''userId'' ''roleId'' True]))
     = Some [pair_index ''userId'' ''roleId'' True] \<and>
   bm_indexes (queue_index (pair_index ''userId'' ''teamId'' False)
       (junction_model [pair_index ''userId'' ''roleId'' True]))
     = Some [pair_index ''userId'' ''roleId'' True, pair_index ''userId'' ''teamId'' False]"
proof -
  let ?m = "junction_model [pair_index ''userId'' ''roleId'' True]"
  have pend: "[pair_index ''userId'' ''roleId'' True]
                = (case bm_indexes ?m of None \<Rightarrow> [] | Some p \<Rightarrow> p)"
    by (simp add: junction_model_def)
  have a: "bm_indexes (queue_index (pair_index ''userId'' ''roleId'' False) ?m)
             = Some [pair_index ''userId'' ''roleId'' True]"
    using queue_index_by_fields
      [of "pair_index ''userId'' ''roleId'' False" "[''userId'', ''roleId'']"
          "[pair_index ''userId'' ''roleId'' True]" ?m, THEN conjunct2] pend
    by (simp add: pair_index_def)
  have b: "bm_indexes (queue_index (pair_index ''userId'' ''teamId'' False) ?m)
             = Some ([pair_index ''userId'' ''roleId'' True] @ [pair_index ''userId'' ''teamId'' False])"
    using queue_index_by_fields
      [of "pair_index ''userId'' ''teamId'' False" "[''userId'', ''teamId'']"
          "[pair_index ''userId'' ''roleId'' True]" ?m, THEN conjunct1] pend
    by (simp add: pair_index_def)
  from a b show ?thesis by simp
qed

text \<open>
  The claim as stated (equality on \<open>fields\<close> plus \<open>unique\<close>) fails: a pending unique
  index on the same two fields is not equal to the entry, and the entry is not appended.
\<close>

theorem queue_index_counterexample:
  "\<not> ((bm_indexes (queue_index (pair_index ''userId'' ''roleId'' False)
           (junction_model [pair_index ''userId'' ''roleId'' True]))
         = Some ([pair_index ''userId'' ''roleId'' True] @ [pair_index ''userId'' ''roleId'' False]))
       = (\<not> list_ex (index_spec_equal (pair_index ''userId'' ''roleId'' False))
               [pair_index ''userId'' ''roleId'' True]))"
  by (simp add: queue_index_def junction_model_def pair_index_def index_spec_equal_def
        plain_define_def Let_def)

subsection \<open>The loader boundary\<close>

text \<open>
  Claim C10.  The overridden loader hands back exactly the definitions whose \<open>options\<close>
  is undefined or whose \<open>options.tableName\<close> is undefined.  So a definition with an
  \<open>options\<close> object and no table name is handed back as a Waterline model, and the
  definition pass binds it all the same, since there the presence of \<open>options\<close> decides.
  (The keys of an object are distinct.)
\<close>

theorem loader_hands_back_waterline:
  assumes "distinct (map fst modelDefs)"
  shows "loadModels err (Some modelDefs) =
           Inr (err, filter (\<lambda>(key, model). case options model of None \<Rightarrow> True
                                              | Some opts \<Rightarrow> tableName opts = None) modelDefs) \<and>
         (\<forall>key model opts.
            (key, model) \<in> set modelDefs \<and> options model = Some opts \<and> tableName opts = None \<longrightarrow>
              (\<exists>handed. loadModels err (Some modelDefs) = Inr (err, handed) \<and>
                         (key, model) \<in> set handed) \<and>
              (\<forall>lib cfg connections conn st.
                 map_of connections (model_connection_name cfg model) = Some conn \<longrightarrow>
                   (\<exists>st'. define_model lib cfg connections model st = Inr st' \<and>
                      map_of (sails_models st') (toLowerCase (globalId model))
                        = Some (model_class lib conn model opts))))"
proof -
  have pred: "(\<lambda>(key, model). is_waterline_model model)
      = (\<lambda>(key, model). case options model of None \<Rightarrow> True | Some opts \<Rightarrow> tableName opts = None)"
    by (simp add: is_waterline_model_def fun_eq_iff)
  have handed: "loadModels err (Some modelDefs) =
      Inr (err, filter (\<lambda>(key, model). case options model of None \<Rightarrow> True
                                         | Some opts \<Rightarrow> tableName opts = None) modelDefs)"
    using detect_waterline_filter [of modelDefs "[]"] assms
    by (simp add: loadModels_def pred)
  show ?thesis
  proof (intro conjI allI impI)
    show "loadModels err (Some modelDefs) =
      Inr (err, filter (\<lambda>(key, model). case options model of None \<Rightarrow> True
                                         | Some opts \<Rightarrow> tableName opts = None) modelDefs)"
      by (rule handed)
  next
    fix key model opts
    assume h: "(key, model) \<in> set modelDefs \<and> options model = Some opts \<and> tableName opts = None"
    then show "\<exists>handed. loadModels err (Some modelDefs) = Inr (err, handed) \<and>
                         (key, model) \<in> set handed"
      using handed by auto
  next
    fix key model opts lib cfg and connections :: "sequelize obj" and conn st
    assume "(key, model) \<in> set modelDefs \<and> options model = Some opts \<and> tableName opts = None"
      and "map_of connections (model_connection_name cfg model) = Some conn"
    then show "\<exists>st'. define_model lib cfg connections model st = Inr st' \<and>
                      map_of (sails_models st') (toLowerCase (globalId model))
                        = Some (model_class lib conn model opts)"
      using define_model_owned by blast
  qed
qed

theorem loader_hands_back_waterline_witness:
  "loadModels None (Some [(''user'', owned_model ''User'' no_options),
                          (''legacy'', waterline_model ''Legacy''),
                          (''role'', owned_model ''Role'' (no_options\<lparr>tableName := Some ''roles''\<rparr>))])
     = Inr (None, [(''user'', owned_model ''User'' no_options),
                   (''legacy'', waterline_model ''Legacy'')]) \<and>
   (\<exists>st'. define_model plain_lib (main_config ''alter'' False False) [(''main'', main_sequelize)]
             (owned_model ''User'' no_options) initial_state = Inr st' \<and>
          map_of (sails_models st') (toLowerCase (globalId (owned_model ''User'' no_options)))
            = Some (model_class plain_lib main_sequelize (owned_model ''User'' no_options) no_options))"
proof -
  let ?defs = "[(''user'', owned_model ''User'' no_options),
                (''legacy'', waterline_model ''Legacy''),
                (''role'', owned_model ''Role'' (no_options\<lparr>tableName := Some ''roles''\<rparr>))]"
  have d: "distinct (map fst ?defs)" by simp
  note inst = loader_hands_back_waterline [OF d, of None]
  have handed: "loadModels None (Some ?defs)
     = Inr (None, [(''user'', owned_model ''User'' no_options),
                   (''legacy'', waterline_model ''Legacy'')])"
    using inst [THEN conjunct1]
    by (simp add: owned_model_def waterline_model_def no_options_def)
  have mem: "(''user'', owned_model ''User'' no_options) \<in> set ?defs \<and>
             options (owned_model ''User'' no_options) = Some no_options \<and>
             tableName no_options = None"
    by (simp add: owned_model_def no_options_def)
  have conn: "map_of [(''main'', main_sequelize)]
                (model_connection_name (main_config ''alter'' False False)
                   (owned_model ''User'' no_options)) = Some main_sequelize"
    by (simp add: model_connection_name_def default_connection_name_def main_config_def
          owned_model_def)
  have bound: "\<exists>st'. define_model plain_lib (main_config ''alter'' False False)
                 [(''main'', main_sequelize)] (owned_model ''User'' no_options) initial_state = Inr st' \<and>
          map_of (sails_models st') (toLowerCase (globalId (owned_model ''User'' no_options)))
            = Some (model_class plain_lib main_sequelize (owned_model ''User'' no_options) no_options)"
    using inst [THEN conjunct2, rule_format, OF mem, THEN conjunct2, rule_format, OF conn] .
  from handed bound show ?thesis by (rule conjI)
qed

subsection \<open>The definition pass\<close>

lemma define_model_other_key:
  "define_model lib cfg connections modelDef st = Inr st' \<Longrightarrow>
   options modelDef = None \<or> toLowerCase (globalId modelDef) \<noteq> key \<Longrightarrow>
   map_of (sails_models st') key = map_of (sails_models st) key"
  by (auto simp: define_model_def map_of_obj_set_other split: option.splits)

lemma first_pass_other_keys:
  "first_pass lib cfg connections models st = Inr st' \<Longrightarrow>
   \<forall>(modelName, modelDef) \<in> set models.
      options modelDef = None \<or> toLowerCase (globalId modelDef) \<noteq> key \<Longrightarrow>
   map_of (sails_models st') key = map_of (sails_models st) key"
proof (induction models arbitrary: st)
  case Nil
  then show ?case by simp
next
  case (Cons entry models)
  obtain modelName modelDef where entry: "entry = (modelName, modelDef)" by (cases entry)
  from Cons.prems(1) entry obtain st1 where
    one: "define_model lib cfg connections modelDef st = Inr st1" and
    rest: "first_pass lib cfg connections models st1 = Inr st'"
    by (auto split: sum.splits)
  have "map_of (sails_models st1) key = map_of (sails_models st) key"
    using define_model_other_key [OF one] Cons.prems(2) entry by auto
  moreover have "map_of (sails_models st') key = map_of (sails_models st1) key"
    using Cons.IH [OF rest] Cons.prems(2) by auto
  ultimately show ?case by simp
qed

lemma first_pass_append:
  "first_pass lib cfg connections (xs @ ys) st =
     (case first_pass lib cfg connections xs st of
        Inl e \<Rightarrow> Inl e
      | Inr st1 \<Rightarrow> first_pass lib cfg connections ys st1)"
  by (induction xs arbitrary: st) (auto split: sum.splits)

lemma first_pass_returns:
  "\<forall>(modelName, modelDef) \<in> set models.
      options modelDef \<noteq> None \<longrightarrow>
        map_of connections (model_connection_name cfg modelDef) \<noteq> None \<Longrightarrow>
   \<exists>st'. first_pass lib cfg connections models st = Inr st'"
proof (induction models arbitrary: st)
  case Nil
  then show ?case by simp
next
  case (Cons entry models)
  obtain modelName modelDef where entry: "entry = (modelName, modelDef)" by (cases entry)
  have "\<exists>st1. define_model lib cfg connections modelDef st = Inr st1"
    using Cons.prems entry by (auto simp: define_model_def split: option.splits)
  then obtain st1 where one: "define_model lib cfg connections modelDef st = Inr st1" ..
  from Cons.IH [of st1] Cons.prems obtain st' where
    "first_pass lib cfg connections models st1 = Inr st'" by auto
  with one entry show ?case by simp
qed

lemma first_pass_last_wins:
  assumes run: "first_pass lib cfg connections (before @ (modelName, modelDef) # after) st = Inr st'"
    and owned: "options modelDef = Some opts"
    and conn: "map_of connections (model_connection_name cfg modelDef) = Some conn"
    and later: "\<forall>(n, d) \<in> set after.
                  options d = None \<or> toLowerCase (globalId d) \<noteq> toLowerCase (globalId modelDef)"
  shows "map_of (sails_models st') (toLowerCase (globalId modelDef))
           = Some (model_class lib conn modelDef opts)"
proof -
  from run obtain st1 where
    pre: "first_pass lib cfg connections before st = Inr st1" and
    suf: "first_pass lib cfg connections ((modelName, modelDef) # after) st1 = Inr st'"
    by (auto simp: first_pass_append split: sum.splits)
  from define_model_owned [OF owned conn, of lib st1] obtain st2 where
    one: "define_model lib cfg connections modelDef st1 = Inr st2" and
    reg: "map_of (sails_models st2) (toLowerCase (globalId modelDef))
            = Some (model_class lib conn modelDef opts)"
    by blast
  from suf one have rest: "first_pass lib cfg connections after st2 = Inr st'" by simp
  from first_pass_other_keys [OF rest later] reg show ?thesis by simp
qed

lemma define_model_keeps_key:
  "define_model lib cfg connections modelDef st = Inr st' \<Longrightarrow>
   map_of (sails_models st) key \<noteq> None \<Longrightarrow> map_of (sails_models st') key \<noteq> None"
  by (cases "toLowerCase (globalId modelDef) = key")
     (auto simp: define_model_def map_of_obj_set_other map_of_obj_set_same split: option.splits)

lemma first_pass_keeps_key:
  "first_pass lib cfg connections models st = Inr st' \<Longrightarrow>
   map_of (sails_models st) key \<noteq> None \<Longrightarrow> map_of (sails_models st') key \<noteq> None"
proof (induction models arbitrary: st)
  case Nil
  then show ?case by simp
next
  case (Cons entry models)
  obtain modelName modelDef where entry: "entry = (modelName, modelDef)" by (cases entry)
  from Cons.prems(1) entry obtain st1 where
    one: "define_model lib cfg connections modelDef st = Inr st1" and
    rest: "first_pass lib cfg connections models st1 = Inr st'"
    by (auto split: sum.splits)
  from define_model_keeps_key [OF one Cons.prems(2)] Cons.IH [OF rest] show ?case by blast
qed

lemma first_pass_registered:
  "first_pass lib cfg connections models st = Inr st' \<Longrightarrow>
   (modelName, modelDef) \<in> set models \<Longrightarrow> options modelDef \<noteq> None \<Longrightarrow>
   map_of (sails_models st') (toLowerCase (globalId modelDef)) \<noteq> None"
proof (induction models arbitrary: st)
  case Nil
  then show ?case by simp
next
  case (Cons entry models)
  obtain n d where entry: "entry = (n, d)" by (cases entry)
  from Cons.prems(1) entry obtain st1 where
    one: "define_model lib cfg connections d st = Inr st1" and
    rest: "first_pass lib cfg connections models st1 = Inr st'"
    by (auto split: sum.splits)
  show ?case
  proof (cases "(modelName, modelDef) = (n, d)")
    case True
    with one Cons.prems(3)
    have "map_of (sails_models st1) (toLowerCase (globalId modelDef)) \<noteq> None"
      by (auto simp: define_model_def map_of_obj_set_same split: option.splits)
    from first_pass_keeps_key [OF rest this] show ?thesis by blast
  next
    case False
    with Cons.prems(2) entry have "(modelName, modelDef) \<in> set models" by auto
    from Cons.IH [OF rest this Cons.prems(3)] show ?thesis by blast
  qed
qed

text \<open>
  Claim C8, as amended.  The definition pass registers every bound model under the
  lower-cased global identifier.  Two owned definitions with the same lower-cased
  identifier are no error: whenever the connection of every owned definition is among
  the connections, the pass returns, every owned definition has an entry, and the entry
  is the model class of the last owned definition with that identifier.
\<close>

theorem first_pass_registers:
  assumes "\<forall>(modelName, modelDef) \<in> set models.
             options modelDef \<noteq> None \<longrightarrow>
               map_of connections (model_connection_name cfg modelDef) \<noteq> None"
  shows "\<exists>st'. first_pass lib cfg connections models st = Inr st' \<and>
           (\<forall>(modelName, modelDef) \<in> set models.
              options modelDef \<noteq> None \<longrightarrow>
                map_of (sails_models st') (toLowerCase (globalId modelDef)) \<noteq> None) \<and>
           (\<forall>before modelName modelDef after opts conn.
              models = before @ (modelName, modelDef) # after \<and>
              options modelDef = Some opts \<and>
              map_of connections (model_connection_name cfg modelDef) = Some conn \<and>
              (\<forall>(n, d) \<in> set after.
                 options d = None \<or> toLowerCase (globalId d) \<noteq> toLowerCase (globalId modelDef)) \<longrightarrow>
              map_of (sails_models st') (toLowerCase (globalId modelDef))
                = Some (model_class lib conn modelDef opts))"
proof -
  from first_pass_returns [OF assms] obtain st' where
    run: "first_pass lib cfg connections models st = Inr st'" by blast
  have registered: "\<forall>(modelName, modelDef) \<in> set models.
      options modelDef \<noteq> None \<longrightarrow>
        map_of (sails_models st') (toLowerCase (globalId modelDef)) \<noteq> None"
    using first_pass_registered [OF run] by blast
  have last: "\<forall>before modelName modelDef after opts conn.
      models = before @ (modelName, modelDef) # after \<and>
      options modelDef = Some opts \<and>
      map_of connections (model_connection_name cfg modelDef) = Some conn \<and>
      (\<forall>(n, d) \<in> set after.
         options d = None \<or> toLowerCase (globalId d) \<noteq> toLowerCase (globalId modelDef)) \<longrightarrow>
      map_of (sails_models st') (toLowerCase (globalId modelDef))
        = Some (model_class lib conn modelDef opts)"
    using first_pass_last_wins run by blast
  from run registered last show ?thesis by blast
qed

theorem first_pass_registers_witness:
  "\<exists>st'. first_pass plain_lib (main_config ''alter'' False False) [(''main'', main_sequelize)]
            [(''user'', owned_model ''User'' no_options), (''member'', owned_model ''USER'' no_options)]
            initial_state = Inr st' \<and>
         map_of (sails_models st') (toLowerCase (globalId (owned_model ''USER'' no_options)))
           = Some (model_class plain_lib main_sequelize (owned_model ''USER'' no_options) no_options)"
proof -
  let ?cfg = "main_config ''alter'' False False"
  let ?models = "[(''user'', owned_model ''User'' no_options), (''member'', owned_model ''USER'' no_options)]"
  have conn: "map_of [(''main'', main_sequelize)] (model_connection_name ?cfg (owned_model ''User'' no_options)) = Some main_sequelize"
             "map_of [(''main'', main_sequelize)] (model_connection_name ?cfg (owned_model ''USER'' no_options)) = Some main_sequelize"
    by (simp_all add: model_connection_name_def default_connection_name_def main_config_def
          owned_model_def)
  have resolves: "\<forall>(modelName, modelDef) \<in> set ?models.
      options modelDef \<noteq> None \<longrightarrow>
        map_of [(''main'', main_sequelize)] (model_connection_name ?cfg modelDef) \<noteq> None"
    using conn by simp
  have owned: "options (owned_model ''USER'' no_options) = Some no_options"
    by (simp add: owned_model_def)
  have cond: "?models = [(''user'', owned_model ''User'' no_options)] @ (''member'', owned_model ''USER'' no_options) # [] \<and>
      options (owned_model ''USER'' no_options) = Some no_options \<and>
      map_of [(''main'', main_sequelize)] (model_connection_name ?cfg (owned_model ''USER'' no_options)) = Some main_sequelize \<and>
      (\<forall>(n, d) \<in> set []. options d = None \<or> toLowerCase (globalId d) \<noteq> toLowerCase (globalId (owned_model ''USER'' no_options)))"
    using conn(2) owned by simp
  from first_pass_registers [OF resolves, of plain_lib initial_state] obtain st' where
    run: "first_pass plain_lib ?cfg [(''main'', main_sequelize)] ?models initial_state = Inr st'" and
    last: "\<forall>before modelName modelDef after opts conn.
      ?models = before @ (modelName, modelDef) # after \<and>
      options modelDef = Some opts \<and>
      map_of [(''main'', main_sequelize)] (model_connection_name ?cfg modelDef) = Some conn \<and>
      (\<forall>(n, d) \<in> set after.
         options d = None \<or> toLowerCase (globalId d) \<noteq> toLowerCase (globalId modelDef)) \<longrightarrow>
      map_of (sails_models st') (toLowerCase (globalId modelDef))
        = Some (model_class plain_lib conn modelDef opts)"
    by (elim exE conjE) (rule that)
  have key: "map_of (sails_models st') (toLowerCase (globalId (owned_model ''USER'' no_options)))
        = Some (model_class plain_lib main_sequelize (owned_model ''USER'' no_options) no_options)"
    by (rule last [rule_format, OF cond])
  show ?thesis using run key by (intro exI [of _ st'] conjI)
qed

text \<open>
  The claim as stated fails: \<open>User\<close> and \<open>USER\<close> are two owned definitions with the
  identifier \<open>user\<close>; the pass returns, and \<open>user\<close> holds the class of the second.
\<close>

theorem first_pass_duplicate_counterexample:
  "toLowerCase (globalId (owned_model ''User'' no_options))
     = toLowerCase (globalId (owned_model ''USER'' no_options)) \<and>
   first_pass plain_lib (main_config ''alter'' False False) [(''main'', main_sequelize)]
       [(''user'', owned_model ''User'' no_options), (''member'', owned_model ''USER'' no_options)]
       initial_state
     = Inr (initial_state\<lparr>sails_models :=
              [(''user'', model_class plain_lib main_sequelize (owned_model ''USER'' no_options)
                            no_options)]\<rparr>)"
proof -
  have gid: "globalId (owned_model ''User'' no_options) = ''User''"
            "globalId (owned_model ''USER'' no_options) = ''USER''"
            "options (owned_model ''User'' no_options) = Some no_options"
            "options (owned_model ''USER'' no_options) = Some no_options"
    by (simp_all add: owned_model_def)
  have conn: "model_connection_name (main_config ''alter'' False False) (owned_model ''User'' no_options) = ''main''"
             "model_connection_name (main_config ''alter'' False False) (owned_model ''USER'' no_options) = ''main''"
    by (simp_all add: model_connection_name_def default_connection_name_def main_config_def
          owned_model_def)
  have glob: "\<not> cfg_globals_models (main_config ''alter'' False False)"
    by (simp add: main_config_def)
  show ?thesis
    by (simp add: define_model_def gid conn glob lower_User lower_USER initial_state_def)
qed

subsection \<open>Association interception\<close>

lemma intercepted_keeps_false:
  "intercepted_options models opts = Inr opts' \<Longrightarrow>
   btm_uniqueKey opts = Some UniqueKeyFalse \<Longrightarrow> btm_uniqueKey opts' = Some UniqueKeyFalse"
  by (auto simp: intercepted_options_def split: option.splits through.splits sum.splits if_splits)

lemma call_keeps_false:
  "call_belongsToMany f models opts = Inr opts' \<Longrightarrow>
   btm_uniqueKey opts = Some UniqueKeyFalse \<Longrightarrow> btm_uniqueKey opts' = Some UniqueKeyFalse"
proof (induction f arbitrary: opts)
  case OriginalBelongsToMany
  then show ?case by simp
next
  case (Intercepting f)
  from Intercepting.prems(1) obtain mid where
    first: "intercepted_options models opts = Inr mid" and
    rest: "call_belongsToMany f models mid = Inr opts'"
    by (auto split: sum.splits)
  from intercepted_keeps_false [OF first Intercepting.prems(2)] Intercepting.IH [OF rest]
  show ?case by blast
qed

lemma has_non_unique_index_iff:
  "has_non_unique_index ixs =
     (\<exists>idx \<in> set ixs. idx_unique idx = Some False \<and> (\<exists>fs. idx_fields idx = Some fs \<and> length fs = 2))"
  by (auto simp: has_non_unique_index_def list_ex_iff split: option.splits)

lemma intercepted_sets_false:
  assumes "intercepted_options models opts = Inr opts'"
    and "btm_through opts = Some (ThroughObject thr)"
    and "thr_model thr = Some (ModelClass name) \<or> thr_model thr = Some (ModelName name)"
    and "name \<noteq> []"
    and "map_of models (toLowerCase name) = Some throughModel"
    and "bm_options throughModel = Some topts"
    and "indexes topts = Some ixs"
    and "\<exists>idx \<in> set ixs. idx_unique idx = Some False \<and> (\<exists>fs. idx_fields idx = Some fs \<and> length fs = 2)"
  shows "btm_uniqueKey opts' = Some UniqueKeyFalse"
proof -
  from assms(8) have "has_non_unique_index ixs" by (simp add: has_non_unique_index_iff)
  with assms(3-7) have "through_has_non_unique_index models thr = Inr True"
    by (auto simp: through_has_non_unique_index_def through_model_key_def)
  with assms(1,2) show ?thesis by (auto simp: intercepted_options_def)
qed

lemma run_associations_received:
  "run_associations calls st = Inr st' \<Longrightarrow>
   belongsToMany st' = belongsToMany st \<and> sails_models st' = sails_models st \<and>
   (\<exists>received. associated st' = associated st @ received \<and>
      list_all2 (\<lambda>request got. fst got = fst request \<and>
                   call_belongsToMany (belongsToMany st) (sails_models st) (snd request) = Inr (snd got))
        (belongsToMany_requests calls) received)"
proof (induction calls arbitrary: st)
  case Nil
  then show ?case by simp
next
  case (Cons call calls)
  show ?case
  proof (cases call)
    case (BelongsToMany target opts)
    with Cons.prems obtain opts' where
      one: "call_belongsToMany (belongsToMany st) (sails_models st) opts = Inr opts'" and
      rest: "run_associations calls (st\<lparr>associated := associated st @ [(target, opts')]\<rparr>) = Inr st'"
      by (auto split: sum.splits)
    from Cons.IH [OF rest] obtain received where
      same: "belongsToMany st' = belongsToMany st" "sails_models st' = sails_models st" and
      app: "associated st' = (associated st @ [(target, opts')]) @ received" and
      all: "list_all2 (\<lambda>request got. fst got = fst request \<and>
                   call_belongsToMany (belongsToMany st) (sails_models st) (snd request) = Inr (snd got))
              (belongsToMany_requests calls) received"
      by auto
    have "associated st' = associated st @ ((target, opts') # received)" using app by simp
    moreover have "list_all2 (\<lambda>request got. fst got = fst request \<and>
                   call_belongsToMany (belongsToMany st) (sails_models st) (snd request) = Inr (snd got))
              (belongsToMany_requests (call # calls)) ((target, opts') # received)"
      using all one BelongsToMany by simp
    ultimately show ?thesis using same by blast
  next
    case (OtherAssociation kind)
    with Cons.prems have "run_associations calls st = Inr st'" by simp
    from Cons.IH [OF this] OtherAssociation show ?thesis by simp
  qed
qed

text \<open>
  Claim C5.  Let \<open>setAssociation\<close> return for a definition whose \<open>associations\<close> is a
  function.  Then \<open>Sequelize.Model.belongsToMany\<close> is afterwards what it was before (so
  with the ORM's own method in place before, later calls pass their options on
  unchanged), and every \<open>belongsToMany\<close> request of the function has reached the ORM in
  order; a request whose \<open>through\<close> is an object naming a registered model with
  \<open>options.indexes\<close> that contain an index with \<open>unique: false\<close> on exactly two fields
  has reached it with \<open>uniqueKey = false\<close>.
\<close>

theorem setAssociation_intercepts:
  assumes "associations modelDef = JsFunction calls"
    and "setAssociation modelDef st = Inr st'"
  shows "belongsToMany st' = belongsToMany st \<and>
         (belongsToMany st = OriginalBelongsToMany \<longrightarrow>
            (\<forall>models opts. call_belongsToMany (belongsToMany st') models opts = Inr opts)) \<and>
         (\<exists>received.
            associated st' = associated st @ received \<and>
            length received = length (belongsToMany_requests calls) \<and>
            (\<forall>i < length received.
               fst (received ! i) = fst (belongsToMany_requests calls ! i) \<and>
               (\<forall>thr name throughModel topts ixs.
                  btm_through (snd (belongsToMany_requests calls ! i)) = Some (ThroughObject thr) \<and>
                  (thr_model thr = Some (ModelClass name) \<or> thr_model thr = Some (ModelName name)) \<and>
                  name \<noteq> [] \<and>
                  map_of (sails_models st) (toLowerCase name) = Some throughModel \<and>
                  bm_options throughModel = Some topts \<and>
                  indexes topts = Some ixs \<and>
                  (\<exists>idx \<in> set ixs. idx_unique idx = Some False \<and>
                       (\<exists>fs. idx_fields idx = Some fs \<and> length fs = 2)) \<longrightarrow>
                  btm_uniqueKey (snd (received ! i)) = Some UniqueKeyFalse)))"
proof -
  let ?st0 = "st\<lparr>belongsToMany := Intercepting (belongsToMany st)\<rparr>"
  from assms obtain st1 where
    run: "run_associations calls ?st0 = Inr st1" and
    st': "st' = st1\<lparr>belongsToMany := belongsToMany st\<rparr>"
    by (auto simp: setAssociation_def Let_def split: sum.splits)
  from run_associations_received [OF run] obtain received where
    app: "associated st1 = associated st @ received" and
    all: "list_all2 (\<lambda>request got. fst got = fst request \<and>
             call_belongsToMany (Intercepting (belongsToMany st)) (sails_models st) (snd request)
               = Inr (snd got))
            (belongsToMany_requests calls) received"
    by auto
  have restored: "belongsToMany st' = belongsToMany st" using st' by simp
  have len: "length received = length (belongsToMany_requests calls)"
    using all by (simp add: list_all2_lengthD)
  have each: "\<forall>i < length received.
      fst (received ! i) = fst (belongsToMany_requests calls ! i) \<and>
      (\<forall>thr name throughModel topts ixs.
         btm_through (snd (belongsToMany_requests calls ! i)) = Some (ThroughObject thr) \<and>
         (thr_model thr = Some (ModelClass name) \<or> thr_model thr = Some (ModelName name)) \<and>
         name \<noteq> [] \<and>
         map_of (sails_models st) (toLowerCase name) = Some throughModel \<and>
         bm_options throughModel = Some topts \<and>
         indexes topts = Some ixs \<and>
         (\<exists>idx \<in> set ixs. idx_unique idx = Some False \<and>
              (\<exists>fs. idx_fields idx = Some fs \<and> length fs = 2)) \<longrightarrow>
         btm_uniqueKey (snd (received ! i)) = Some UniqueKeyFalse)"
  proof (intro allI impI conjI)
    fix i assume i: "i < length received"
    from list_all2_nthD2 [OF all i]
    show "fst (received ! i) = fst (belongsToMany_requests calls ! i)" by simp
  next
    fix i thr name throughModel topts ixs
    assume i: "i < length received"
      and q: "btm_through (snd (belongsToMany_requests calls ! i)) = Some (ThroughObject thr) \<and>
         (thr_model thr = Some (ModelClass name) \<or> thr_model thr = Some (ModelName name)) \<and>
         name \<noteq> [] \<and>
         map_of (sails_models st) (toLowerCase name) = Some throughModel \<and>
         bm_options throughModel = Some topts \<and>
         indexes topts = Some ixs \<and>
         (\<exists>idx \<in> set ixs. idx_unique idx = Some False \<and>
              (\<exists>fs. idx_fields idx = Some fs \<and> length fs = 2))"
    from list_all2_nthD2 [OF all i]
    have "call_belongsToMany (Intercepting (belongsToMany st)) (sails_models st)
            (snd (belongsToMany_requests calls ! i)) = Inr (snd (received ! i))" by simp
    then obtain mid where
      first: "intercepted_options (sails_models st) (snd (belongsToMany_requests calls ! i)) = Inr mid" and
      rest: "call_belongsToMany (belongsToMany st) (sails_models st) mid = Inr (snd (received ! i))"
      by (auto split: sum.splits)
    from q have "btm_uniqueKey mid = Some UniqueKeyFalse"
      using intercepted_sets_false [OF first] by blast
    from call_keeps_false [OF rest this]
    show "btm_uniqueKey (snd (received ! i)) = Some UniqueKeyFalse" .
  qed
  have after: "belongsToMany st = OriginalBelongsToMany \<longrightarrow>
      (\<forall>models opts. call_belongsToMany (belongsToMany st') models opts = Inr opts)"
    using restored by simp
  have "associated st' = associated st @ received" using st' app by simp
  with restored after len each show ?thesis by blast
qed

theorem setAssociation_intercepts_witness:
  "setAssociation user_with_roles junction_state
     = Inr (junction_state\<lparr>associated :=
              [(''Role'', through_UserRole\<lparr>btm_uniqueKey := Some UniqueKeyFalse\<rparr>)]\<rparr>) \<and>
   belongsToMany (junction_state\<lparr>associated :=
              [(''Role'', through_UserRole\<lparr>btm_uniqueKey := Some UniqueKeyFalse\<rparr>)]\<rparr>)
     = belongsToMany junction_state \<and>
   call_belongsToMany (belongsToMany (junction_state\<lparr>associated :=
              [(''Role'', through_UserRole\<lparr>btm_uniqueKey := Some UniqueKeyFalse\<rparr>)]\<rparr>))
       [] through_UserRole = Inr through_UserRole \<and>
   btm_uniqueKey (snd (associated (junction_state\<lparr>associated :=
              [(''Role'', through_UserRole\<lparr>btm_uniqueKey := Some UniqueKeyFalse\<rparr>)]\<rparr>) ! 0))
     = Some UniqueKeyFalse"
proof -
  let ?calls = "[OtherAssociation ''hasMany'', BelongsToMany ''Role'' through_UserRole]"
  let ?st' = "junction_state\<lparr>associated :=
              [(''Role'', through_UserRole\<lparr>btm_uniqueKey := Some UniqueKeyFalse\<rparr>)]\<rparr>"
  let ?thr = "\<lparr>thr_model = Some (ModelName ''UserRole''), thr_unique = None\<rparr>"
  let ?junction = "plain_define main_sequelize ''UserRole'' [] junction_options"
  have assoc: "associations user_with_roles = JsFunction ?calls"
    by (simp add: user_with_roles_def owned_model_def)
  have key: "through_has_non_unique_index [(''userrole'', ?junction)] ?thr = Inr True"
    by (simp add: through_has_non_unique_index_def through_model_key_def lower_UserRole
          plain_define_def junction_options_def
          no_options_def has_non_unique_index_def pair_index_def)
  have run: "setAssociation user_with_roles junction_state = Inr ?st'"
    by (simp add: setAssociation_def assoc Let_def intercepted_options_def through_UserRole_def
          key junction_state_def initial_state_def)
  note inst = setAssociation_intercepts [OF assoc run]
  have restored: "belongsToMany ?st' = belongsToMany junction_state"
    using inst by (rule conjunct1)
  have orig: "belongsToMany junction_state = OriginalBelongsToMany"
    by (simp add: junction_state_def initial_state_def)
  have later: "call_belongsToMany (belongsToMany ?st') [] through_UserRole = Inr through_UserRole"
    using inst [THEN conjunct2, THEN conjunct1, rule_format, OF orig] .
  have before: "associated junction_state = []"
    by (simp add: junction_state_def initial_state_def)
  have reqs: "belongsToMany_requests ?calls = [(''Role'', through_UserRole)]" by simp
  have cond: "btm_through (snd (belongsToMany_requests ?calls ! 0)) = Some (ThroughObject ?thr) \<and>
      (thr_model ?thr = Some (ModelClass ''UserRole'') \<or> thr_model ?thr = Some (ModelName ''UserRole'')) \<and>
      ''UserRole'' \<noteq> [] \<and>
      map_of (sails_models junction_state) (toLowerCase ''UserRole'') = Some ?junction \<and>
      bm_options ?junction = Some junction_options \<and>
      indexes junction_options = Some [pair_index ''userId'' ''roleId'' False] \<and>
      (\<exists>idx \<in> set [pair_index ''userId'' ''roleId'' False].
         idx_unique idx = Some False \<and> (\<exists>fs. idx_fields idx = Some fs \<and> length fs = 2))"
    by (simp add: through_UserRole_def lower_UserRole junction_state_def initial_state_def
          plain_define_def junction_options_def no_options_def pair_index_def)
  from inst [THEN conjunct2, THEN conjunct2] obtain received where
    app: "associated ?st' = associated junction_state @ received" and
    len: "length received = length (belongsToMany_requests ?calls)" and
    each: "\<forall>i < length received.
        fst (received ! i) = fst (belongsToMany_requests ?calls ! i) \<and>
        (\<forall>thr name throughModel topts ixs.
           btm_through (snd (belongsToMany_requests ?calls ! i)) = Some (ThroughObject thr) \<and>
           (thr_model thr = Some (ModelClass name) \<or> thr_model thr = Some (ModelName name)) \<and>
           name \<noteq> [] \<and>
           map_of (sails_models junction_state) (toLowerCase name) = Some throughModel \<and>
           bm_options throughModel = Some topts \<and>
           indexes topts = Some ixs \<and>
           (\<exists>idx \<in> set ixs. idx_unique idx = Some False \<and>
                (\<exists>fs. idx_fields idx = Some fs \<and> length fs = 2)) \<longrightarrow>
           btm_uniqueKey (snd (received ! i)) = Some UniqueKeyFalse)"
    by (elim exE conjE) (rule that)
  have received: "received = associated ?st'" using app before by simp
  have i0: "0 < length received" using len reqs by simp
  have "btm_uniqueKey (snd (received ! 0)) = Some UniqueKeyFalse"
    by (rule each [rule_format, OF i0, THEN conjunct2, rule_format, OF cond])
  then have suppressed: "btm_uniqueKey (snd (associated ?st' ! 0)) = Some UniqueKeyFalse"
    unfolding received .
  from run restored later suppressed show ?thesis by (intro conjI)
qed

subsection \<open>Connection building\<close>

text \<open>
  What holds of \<open>initConnections\<close>: a default connection name that is not among the
  datastores gives the configuration error before any connection is built; and when it
  returns, it has built one connection for each entry that the test of line 104 keeps.
\<close>

lemma initConnections_default_absent:
  "configured_datastores cfg = Some ds \<Longrightarrow> map_of ds (default_connection_name cfg) = None \<Longrightarrow>
   ic_thrown (initConnections sails_log cfg)
     = Some (Error (''Default connection '' @ [CHR 0x27] @ default_connection_name cfg
                      @ [CHR 0x27] @ '' not found in config/connections'')) \<and>
   ic_connections (initConnections sails_log cfg) = []"
  by (simp add: initConnections_def Let_def)

lemma connect_all_owned:
  "connect_all sails_log ds = (None, ds', conns) \<Longrightarrow>
   map fst conns = map fst (filter (\<lambda>(n, c). skip_connection c = Inr False) ds)"
proof (induction ds arbitrary: ds' conns)
  case Nil
  then show ?case by simp
next
  case (Cons entry ds)
  obtain n c where entry: "entry = (n, c)" by (cases entry)
  obtain r ds1 conns1 where rest: "connect_all sails_log ds = (r, ds1, conns1)"
    by (cases "connect_all sails_log ds") auto
  show ?case
  proof (cases "skip_connection c")
    case (Inl e)
    with Cons.prems entry show ?thesis by simp
  next
    case (Inr skip)
    with Cons.prems entry rest have "r = None" by (cases skip) (auto simp: Let_def)
    with Cons.IH [of ds1 conns1] rest
    have "map fst conns1 = map fst (filter (\<lambda>(n, c). skip_connection c = Inr False) ds)"
      by simp
    with Cons.prems entry rest Inr show ?thesis by (cases skip) (auto simp: Let_def)
  qed
qed

text \<open>
  Claim C7 at a configuration the code does not handle.  The default connection
  \<open>default\<close> is present, and its entry has no adapter, no dialect and no \<open>options\<close>.
  The test of line 104 reads \<open>connection.options.dialect\<close> and \<open>initConnections\<close>
  throws a \<open>TypeError\<close>, where the claim has it return the (empty) map of owned
  connections.
\<close>

theorem initConnections_throws_on_bare_entry:
  "default_connection_name unconfigured = ''default'' \<and>
   configured_datastores unconfigured = Some [(''default'', empty_entry)] \<and>
   initConnections sails_log unconfigured
     = \<lparr>ic_thrown = Some TypeError, ic_config = unconfigured, ic_connections = []\<rparr>"
  by (simp add: initConnections_def default_connection_name_def configured_datastores_def
        unconfigured_def skip_connection_def empty_entry_def truthy_def store_datastores_def)

subsection \<open>Schema convergence\<close>

text \<open>
  With smart migration and \<open>migrate = 'alter'\<close> no run of \<open>migrateSchema\<close> issues a
  database call or reports an error, whatever the datastores and models: every task is
  an uncalled function.  Called at Scenario A, the body of the task would send its
  introspection query and then \<open>sync\<close> with \<open>force = false, alter = true\<close>.
\<close>

lemma smart_tasks_start_nothing:
  "cfg_smartMigrate cfg \<Longrightarrow> alterFlag \<Longrightarrow>
   snd (snd (start_tasks cfg forceSyncFlag alterFlag connections ds)) = [] \<and>
   (\<forall>task \<in> set (fst (snd (start_tasks cfg forceSyncFlag alterFlag connections ds))).
      \<exists>n. task = AsyncFunction n)"
proof (induction ds)
  case Nil
  then show ?case by simp
next
  case (Cons entry ds)
  obtain n c where entry: "entry = (n, c)" by (cases entry)
  obtain r tasks calls where one:
    "start_task cfg forceSyncFlag alterFlag connections n c = (r, tasks, calls)"
    by (cases "start_task cfg forceSyncFlag alterFlag connections n c") auto
  obtain r' tasks' calls' where rest:
    "start_tasks cfg forceSyncFlag alterFlag connections ds = (r', tasks', calls')"
    by (cases "start_tasks cfg forceSyncFlag alterFlag connections ds") auto
  from one Cons.prems have here: "calls = [] \<and> (\<forall>task \<in> set tasks. \<exists>n. task = AsyncFunction n)"
    by (auto simp: start_task_def split: sum.splits bool.splits if_splits)
  from Cons.IH Cons.prems rest
  have there: "calls' = [] \<and> (\<forall>task \<in> set tasks'. \<exists>n. task = AsyncFunction n)" by simp
  from entry one rest here there show ?case by (cases r) auto
qed

lemma promise_all_functions:
  "\<forall>task \<in> set tasks. \<exists>n. task = AsyncFunction n \<Longrightarrow>
   promise_all db forceSyncFlag alterFlag models tasks = (None, [])"
  by (induction tasks) (auto simp: settle_def)

lemma smart_alter_issues_no_call:
  assumes "cfg_smartMigrate cfg" and "cfg_migrate cfg = Some ''alter''"
  shows "ms_calls (migrateSchema db cfg connections models) = [] \<and>
         ms_outcome (migrateSchema db cfg connections models) \<noteq> NextCalled (Some e)"
proof -
  let ?ds = "case configured_datastores cfg of None \<Rightarrow> [] | Some ds \<Rightarrow> ds"
  obtain r tasks calls where started:
    "start_tasks cfg False True connections ?ds = (r, tasks, calls)"
    by (cases "start_tasks cfg False True connections ?ds") auto
  from smart_tasks_start_nothing [OF assms(1), of True False connections ?ds] started
  have none: "calls = []" and fns: "\<forall>task \<in> set tasks. \<exists>n. task = AsyncFunction n"
    by simp_all
  from promise_all_functions [OF fns]
  have joined: "promise_all db False True models tasks = (None, [])" .
  from assms(2) started none joined show ?thesis
    by (cases r) (simp_all add: migrateSchema_def sync_flags_def)
qed

lemma smart_sync_task_scenario_A:
  "\<exists>sql. smart_sync_task empty_database [(''main'', main_sequelize)] ''main'' ''postgres''
       False True [(''user'', owned_model ''User'' no_options)]
       [(''user'', plain_define main_sequelize ''User'' [] no_options)]
     = (None, [Query ''main'' sql, Sync ''main'' False True],
        [(''user'', plain_define main_sequelize ''User'' [] no_options)])"
  by (simp add: smart_sync_task_def owned_model_def lower_User dedupe_model_def
        deduplicateIndexes_def introspect_def Let_def plain_define_def no_options_def
        empty_database_def main_sequelize_def)

text \<open>
  Claim C1 at Scenario A: one Postgres datastore \<open>main\<close>, one owned model \<open>User\<close>,
  \<open>migrate = 'alter'\<close>, \<open>smartMigrate = true\<close>, no dry run.  The only element of
  \<open>syncTasks\<close> is the \<open>async\<close> function itself; \<open>Promise.all\<close> does not call it, so
  \<open>next()\<close> is reached without any introspection query and without any \<open>sync\<close>.
\<close>

theorem smart_task_never_called:
  "migrateSchema db (main_config ''alter'' True False) [(''main'', main_sequelize)]
       [(''user'', owned_model ''User'' no_options)]
     = \<lparr>ms_outcome = NextCalled None, ms_tasks = [AsyncFunction ''main''], ms_calls = []\<rparr>"
  by (simp add: migrateSchema_def main_config_def sync_flags_def configured_datastores_def
        start_task_def skip_connection_def postgres_entry_def truthy_def settle_def)

text \<open>
  The three passes of \<open>defineModels\<close> and the body of the smart-migration task skip a
  definition without \<open>options\<close>.
\<close>

lemma passes_skip_without_options:
  "options modelDef = None \<Longrightarrow>
   define_model lib cfg connections modelDef st = Inr st \<and>
   second_pass ((modelName, modelDef) # rest) st = second_pass rest st \<and>
   queue_indexes modelDef st = st \<and>
   dedupe_models db conn dial ((modelName, modelDef) # rest) sm = dedupe_models db conn dial rest sm"
  by (simp add: define_model_def queue_indexes_def)

text \<open>
  Claim C4 on the Postgres path: one Postgres datastore, \<open>migrate = 'alter'\<close>,
  \<open>smartMigrate = false\<close>, and a single model definition without \<open>options\<close>.  The
  \<open>then\<close> callback reads \<open>modelDef.options.schema\<close> off it; the task rejects with a
  \<open>TypeError\<close>, \<open>sync\<close> is never called and the run ends in \<open>next(e)\<close>.
\<close>

theorem postgres_sync_rejects_on_waterline_model:
  "migrateSchema empty_database (main_config ''alter'' False False) [(''main'', main_sequelize)]
       [(''legacy'', waterline_model ''Legacy'')]
     = \<lparr>ms_outcome = NextCalled (Some TypeError), ms_tasks = [SchemasThen main_sequelize],
        ms_calls = [ShowAllSchemas ''main'']\<rparr>"
  by (simp add: migrateSchema_def main_config_def sync_flags_def configured_datastores_def
        start_task_def skip_connection_def postgres_entry_def truthy_def settle_def
        connection_dialect_def main_sequelize_def empty_database_def waterline_model_def)

lemma normalize_logging_dialect:
  "opt_dialect (normalize_logging sails_log opts) = opt_dialect opts"
  by (simp add: normalize_logging_def split: option.splits logging.splits)

lemma skip_connection_kept:
  "skip_connection c = Inr False \<Longrightarrow>
   skip_connection (c\<lparr>ds_options := Some (normalize_logging sails_log
       (case ds_options c of None \<Rightarrow> \<lparr>opt_dialect = None, opt_logging = None\<rparr>
        | Some given \<Rightarrow> given))\<rparr>) = Inr False"
  by (auto simp: skip_connection_def normalize_logging_dialect split: if_splits option.splits)

lemma connect_all_decided:
  "connect_all sails_log ds = (None, ds', conns) \<Longrightarrow>
   \<forall>(n, c) \<in> set ds'. \<exists>skip. skip_connection c = Inr skip"
proof (induction ds arbitrary: ds' conns)
  case Nil
  then show ?case by simp
next
  case (Cons entry ds)
  obtain n c where entry: "entry = (n, c)" by (cases entry)
  show ?case
  proof (cases "skip_connection c")
    case (Inl e)
    with Cons.prems entry show ?thesis by simp
  next
    case (Inr skip)
    obtain r ds1 conns1 where rest: "connect_all sails_log ds = (r, ds1, conns1)"
      by (cases "connect_all sails_log ds") auto
    show ?thesis
    proof (cases skip)
      case True
      with Cons.prems entry Inr rest have "r = None" and ds': "ds' = (n, c) # ds1"
        by auto
      from Cons.IH [of ds1 conns1] rest \<open>r = None\<close>
      have "\<forall>(n, c) \<in> set ds1. \<exists>skip. skip_connection c = Inr skip" by simp
      with ds' Inr show ?thesis by auto
    next
      case False
      let ?c' = "c\<lparr>ds_options := Some (normalize_logging sails_log
          (case ds_options c of None \<Rightarrow> \<lparr>opt_dialect = None, opt_logging = None\<rparr>
           | Some given \<Rightarrow> given))\<rparr>"
      from Cons.prems entry Inr False rest have "r = None" and ds': "ds' = (n, ?c') # ds1"
        by (auto simp: Let_def)
      from Cons.IH [of ds1 conns1] rest \<open>r = None\<close>
      have "\<forall>(n, c) \<in> set ds1. \<exists>skip. skip_connection c = Inr skip" by simp
      moreover have "skip_connection ?c' = Inr False"
        using skip_connection_kept Inr False by simp
      ultimately show ?thesis using ds' by auto
    qed
  qed
qed

lemma start_tasks_dry:
  "cfg_dryRun cfg \<Longrightarrow> \<forall>(n, c) \<in> set ds. \<exists>skip. skip_connection c = Inr skip \<Longrightarrow>
   start_tasks cfg forceSyncFlag alterFlag connections ds = (None, [], [])"
proof (induction ds)
  case Nil
  then show ?case by simp
next
  case (Cons entry ds)
  obtain n c where entry: "entry = (n, c)" by (cases entry)
  from Cons.prems(2) entry obtain skip where "skip_connection c = Inr skip" by auto
  with Cons.prems(1) have "start_task cfg forceSyncFlag alterFlag connections n c = (None, [], [])"
    by (cases skip) (simp_all add: start_task_def)
  moreover from Cons.IH Cons.prems
  have "start_tasks cfg forceSyncFlag alterFlag connections ds = (None, [], [])" by simp
  ultimately show ?case using entry by simp
qed

lemma store_datastores_simps:
  "configured_datastores cfg \<noteq> None \<Longrightarrow>
     configured_datastores (store_datastores cfg ds) = Some ds"
  "cfg_dryRun (store_datastores cfg ds) = cfg_dryRun cfg"
  "cfg_migrate (store_datastores cfg ds) = cfg_migrate cfg"
  "cfg_smartMigrate (store_datastores cfg ds) = cfg_smartMigrate cfg"
  by (auto simp: store_datastores_def configured_datastores_def split: option.splits)

lemma initConnections_returned:
  assumes "ic_thrown (initConnections sails_log cfg) = None"
  shows "\<exists>ds ds'. configured_datastores cfg = Some ds \<and>
           connect_all sails_log ds = (None, ds', ic_connections (initConnections sails_log cfg)) \<and>
           ic_config (initConnections sails_log cfg) = store_datastores cfg ds'"
proof (cases "configured_datastores cfg")
  case None
  with assms show ?thesis by (simp add: initConnections_def)
next
  case (Some ds)
  obtain r ds' conns where run: "connect_all sails_log ds = (r, ds', conns)"
    by (cases "connect_all sails_log ds") auto
  from assms Some run show ?thesis
    by (auto simp: initConnections_def Let_def split: if_splits)
qed

text \<open>
  Dry runs where connection building has returned (\<open>reload\<close> calls \<open>migrateSchema\<close>
  only then, with the connections built and the configuration as \<open>initConnections\<close>
  left it): for every value of \<open>migrate\<close>, every database and all model definitions,
  \<open>migrateSchema\<close> ends in \<open>next()\<close>, has pushed no task and has issued no database
  call.
\<close>

theorem dry_run_touches_nothing:
  assumes "ic_thrown (initConnections sails_log cfg) = None"
    and "cfg_dryRun cfg"
  shows "migrateSchema db (ic_config (initConnections sails_log cfg))
           (ic_connections (initConnections sails_log cfg)) models
         = \<lparr>ms_outcome = NextCalled None, ms_tasks = [], ms_calls = []\<rparr>"
proof -
  from initConnections_returned [OF assms(1)] obtain ds ds' where
    given: "configured_datastores cfg = Some ds" and
    built: "connect_all sails_log ds = (None, ds', ic_connections (initConnections sails_log cfg))" and
    cfg': "ic_config (initConnections sails_log cfg) = store_datastores cfg ds'"
    by blast
  have stored: "configured_datastores (store_datastores cfg ds') = Some ds'"
    using given by (simp add: store_datastores_simps)
  have dry: "cfg_dryRun (store_datastores cfg ds')"
    using assms(2) by (simp add: store_datastores_simps)
  have decided: "\<forall>(n, c) \<in> set ds'. \<exists>skip. skip_connection c = Inr skip"
    using connect_all_decided [OF built] .
  have "start_tasks (store_datastores cfg ds') forceSyncFlag alterFlag
          (ic_connections (initConnections sails_log cfg)) ds' = (None, [], [])"
    for forceSyncFlag alterFlag
    using start_tasks_dry [OF dry decided] .
  then show ?thesis
    by (simp add: migrateSchema_def cfg' stored dry split: prod.splits)
qed

theorem dry_run_touches_nothing_witness:
  "ic_thrown (initConnections (\<lambda>level. None) (main_config ''alter'' True True)) = None \<and>
   ic_connections (initConnections (\<lambda>level. None) (main_config ''alter'' True True))
     = [(''main'', main_sequelize)] \<and>
   migrateSchema empty_database
       (ic_config (initConnections (\<lambda>level. None) (main_config ''alter'' True True)))
       (ic_connections (initConnections (\<lambda>level. None) (main_config ''alter'' True True)))
       [(''user'', owned_model ''User'' no_options)]
     = \<lparr>ms_outcome = NextCalled None, ms_tasks = [], ms_calls = []\<rparr>"
proof -
  let ?r = "initConnections (\<lambda>level. None) (main_config ''alter'' True True)"
  have built: "ic_thrown ?r = None \<and> ic_connections ?r = [(''main'', main_sequelize)]"
    by (simp add: initConnections_def main_config_def configured_datastores_def
          default_connection_name_def skip_connection_def postgres_entry_def truthy_def
          normalize_logging_def new_Sequelize_def main_sequelize_def Let_def)
  have dry: "cfg_dryRun (main_config ''alter'' True True)"
    by (simp add: main_config_def)
  from built have returned: "ic_thrown ?r = None" by (rule conjunct1)
  from dry_run_touches_nothing [OF returned dry, of empty_database
      "[(''user'', owned_model ''User'' no_options)]"] built
  show ?thesis by simp
qed

text \<open>
  In every dry run, whatever the configuration, no task is pushed and no database call is
  issued; the run ends in \<open>next()\<close> unless the ownership test of lines 340--341 throws.
\<close>

lemma start_tasks_dry_run:
  "cfg_dryRun cfg \<Longrightarrow>
   fst (snd (start_tasks cfg forceSyncFlag alterFlag connections ds)) = [] \<and>
   snd (snd (start_tasks cfg forceSyncFlag alterFlag connections ds)) = [] \<and>
   fst (start_tasks cfg forceSyncFlag alterFlag connections ds) \<in> {None, Some TypeError}"
proof (induction ds)
  case Nil
  then show ?case by simp
next
  case (Cons entry ds)
  obtain n c where entry: "entry = (n, c)" by (cases entry)
  obtain r tasks calls where one:
    "start_task cfg forceSyncFlag alterFlag connections n c = (r, tasks, calls)"
    by (cases "start_task cfg forceSyncFlag alterFlag connections n c") auto
  obtain r' tasks' calls' where rest:
    "start_tasks cfg forceSyncFlag alterFlag connections ds = (r', tasks', calls')"
    by (cases "start_tasks cfg forceSyncFlag alterFlag connections ds") auto
  from one Cons.prems have here: "tasks = [] \<and> calls = [] \<and> (r = None \<or> r = Some TypeError)"
    by (auto simp: start_task_def skip_connection_def split: sum.splits bool.splits if_splits option.splits)
  from Cons.IH Cons.prems rest
  have there: "tasks' = [] \<and> calls' = [] \<and> (r' = None \<or> r' = Some TypeError)" by simp
  from entry one rest here there show ?case by (cases r) auto
qed

lemma dry_run_no_task_no_call:
  assumes "cfg_dryRun cfg"
  shows "ms_tasks (migrateSchema db cfg connections models) = [] \<and>
         ms_calls (migrateSchema db cfg connections models) = [] \<and>
         (ms_outcome (migrateSchema db cfg connections models) = NextCalled None \<or>
          ms_outcome (migrateSchema db cfg connections models) = Thrown TypeError)"
proof (cases "cfg_migrate cfg = Some ''safe''")
  case True
  then show ?thesis by (simp add: migrateSchema_def)
next
  case False
  obtain F A where flags: "sync_flags (cfg_migrate cfg) = (F, A)"
    by (cases "sync_flags (cfg_migrate cfg)") auto
  let ?ds = "case configured_datastores cfg of None \<Rightarrow> [] | Some ds \<Rightarrow> ds"
  obtain r tasks calls where started: "start_tasks cfg F A connections ?ds = (r, tasks, calls)"
    by (cases "start_tasks cfg F A connections ?ds") auto
  from start_tasks_dry_run [OF assms, of F A connections ?ds] started
  have "tasks = []" "calls = []" "r = None \<or> r = Some TypeError" by simp_all
  with False flags started assms show ?thesis
    by (cases r) (auto simp: migrateSchema_def)
qed

text \<open>
  Claim C2 at a configuration the code does not handle: \<open>dryRun = true\<close>,
  \<open>migrate = 'alter'\<close>, and a datastore entry with no adapter, no dialect and no
  \<open>options\<close>.  The ownership test reads \<open>connectionDescription.options.dialect\<close> before
  the \<open>dryRun\<close> test of line 349 is reached; the \<open>TypeError\<close> leaves \<open>migrateSchema\<close> and
  \<open>next\<close> is never called, where the claim has the run complete successfully.
\<close>

theorem dry_run_throws_on_bare_entry:
  "cfg_dryRun (unconfigured\<lparr>cfg_dryRun := True\<rparr>) \<and>
   cfg_migrate (unconfigured\<lparr>cfg_dryRun := True\<rparr>) = Some ''alter'' \<and>
   migrateSchema db (unconfigured\<lparr>cfg_dryRun := True\<rparr>) connections models
     = \<lparr>ms_outcome = Thrown TypeError, ms_tasks = [], ms_calls = []\<rparr>"
  by (simp add: migrateSchema_def sync_flags_def configured_datastores_def unconfigured_def
        start_task_def skip_connection_def empty_entry_def truthy_def)

lemma start_tasks_sync_flags:
  "Sync cid f a \<in> set (snd (snd (start_tasks cfg forceSyncFlag alterFlag connections ds))) \<Longrightarrow>
   f = forceSyncFlag \<and> a = alterFlag"
proof (induction ds)
  case Nil
  then show ?case by simp
next
  case (Cons entry ds)
  obtain n c where entry: "entry = (n, c)" by (cases entry)
  obtain r tasks calls where one:
    "start_task cfg forceSyncFlag alterFlag connections n c = (r, tasks, calls)"
    by (cases "start_task cfg forceSyncFlag alterFlag connections n c") auto
  obtain r' tasks' calls' where rest:
    "start_tasks cfg forceSyncFlag alterFlag connections ds = (r', tasks', calls')"
    by (cases "start_tasks cfg forceSyncFlag alterFlag connections ds") auto
  have here: "Sync cid f a \<in> set calls \<Longrightarrow> f = forceSyncFlag \<and> a = alterFlag"
    using one by (auto simp: start_task_def split: sum.splits bool.splits if_splits option.splits)
  from Cons.prems entry one rest
  have "Sync cid f a \<in> set calls \<or> Sync cid f a \<in> set calls'"
    by (cases r) auto
  with here Cons.IH rest show ?case by auto
qed

lemma create_schemas_no_sync:
  "Sync cid f a \<notin> set (snd (create_schemas c models schemas))"
proof (induction models arbitrary: schemas)
  case Nil
  then show ?case by simp
next
  case (Cons entry models)
  obtain n d where entry: "entry = (n, d)" by (cases entry)
  show ?case
  proof (cases "options d")
    case None
    with entry show ?thesis by simp
  next
    case (Some opts)
    let ?ts = "case schema opts of None \<Rightarrow> [] | Some s \<Rightarrow> s"
    show ?thesis
    proof (cases "?ts \<noteq> [] \<and> ?ts \<notin> set schemas")
      case True
      obtain r calls where rest: "create_schemas c models (schemas @ [?ts]) = (r, calls)"
        by (cases "create_schemas c models (schemas @ [?ts])") auto
      from Cons.IH [of "schemas @ [?ts]"] rest have "Sync cid f a \<notin> set calls" by simp
      with entry Some True rest show ?thesis by (simp add: Let_def)
    next
      case False
      with entry Some Cons.IH [of schemas] show ?thesis by (auto simp: Let_def)
    qed
  qed
qed

lemma settle_sync_flags:
  assumes "Sync cid f a \<in> set (snd (settle db forceSyncFlag alterFlag models task))"
  shows "f = forceSyncFlag \<and> a = alterFlag"
proof (cases task)
  case (AsyncFunction n)
  with assms show ?thesis by (simp add: settle_def)
next
  case (SyncPromise conn)
  with assms show ?thesis by (simp add: settle_def)
next
  case (SchemasThen conn)
  show ?thesis
  proof (cases "db_showAllSchemas db (seq_id conn)")
    case (Inl e)
    with assms SchemasThen show ?thesis by (simp add: settle_def)
  next
    case (Inr schemas)
    obtain r calls where made: "create_schemas (seq_id conn) models schemas = (r, calls)"
      by (cases "create_schemas (seq_id conn) models schemas") auto
    from create_schemas_no_sync [of cid f a "seq_id conn" models schemas] made
    have none: "Sync cid f a \<notin> set calls" by simp
    show ?thesis
    proof (cases r)
      case None
      with assms SchemasThen Inr made none show ?thesis by (simp add: settle_def)
    next
      case (Some e)
      with assms SchemasThen Inr made none show ?thesis by (simp add: settle_def)
    qed
  qed
qed

lemma promise_all_sync_flags:
  "Sync cid f a \<in> set (snd (promise_all db forceSyncFlag alterFlag models tasks)) \<Longrightarrow>
   f = forceSyncFlag \<and> a = alterFlag"
proof (induction tasks)
  case Nil
  then show ?case by simp
next
  case (Cons task tasks)
  then show ?case
    using settle_sync_flags [of cid f a db forceSyncFlag alterFlag models task]
    by (auto split: prod.splits)
qed

lemma migrateSchema_sync_flags:
  assumes "Sync cid f a \<in> set (ms_calls (migrateSchema db cfg connections models))"
  shows "(f, a) = sync_flags (cfg_migrate cfg)"
proof -
  obtain F A where flags: "sync_flags (cfg_migrate cfg) = (F, A)"
    by (cases "sync_flags (cfg_migrate cfg)") auto
  let ?ds = "case configured_datastores cfg of None \<Rightarrow> [] | Some ds \<Rightarrow> ds"
  obtain r tasks calls where started: "start_tasks cfg F A connections ?ds = (r, tasks, calls)"
    by (cases "start_tasks cfg F A connections ?ds") auto
  obtain r' calls' where joined: "promise_all db F A models tasks = (r', calls')"
    by (cases "promise_all db F A models tasks") auto
  from assms flags started joined
  have "Sync cid f a \<in> set calls \<or> Sync cid f a \<in> set calls'"
    by (auto simp: migrateSchema_def split: if_splits option.splits)
  moreover have "Sync cid f a \<in> set calls \<Longrightarrow> f = F \<and> a = A"
    using start_tasks_sync_flags [of cid f a cfg F A connections ?ds] started by simp
  moreover have "Sync cid f a \<in> set calls' \<Longrightarrow> f = F \<and> a = A"
    using promise_all_sync_flags [of cid f a db F A models tasks] joined by simp
  ultimately show ?thesis using flags by auto
qed

lemma create_schemas_returns:
  "\<forall>(n, m) \<in> set models. options m \<noteq> None \<Longrightarrow> fst (create_schemas c models schemas) = None"
proof (induction models arbitrary: schemas)
  case Nil
  then show ?case by simp
next
  case (Cons entry models)
  obtain n d where entry: "entry = (n, d)" by (cases entry)
  from Cons.prems entry obtain opts where opts: "options d = Some opts" by auto
  let ?ts = "case schema opts of None \<Rightarrow> [] | Some s \<Rightarrow> s"
  have rest: "fst (create_schemas c models schemas') = None" for schemas'
    using Cons.IH Cons.prems by simp
  show ?case
  proof (cases "?ts \<noteq> [] \<and> ?ts \<notin> set schemas")
    case True
    obtain r calls where made: "create_schemas c models (schemas @ [?ts]) = (r, calls)"
      by (cases "create_schemas c models (schemas @ [?ts])") auto
    with rest [of "schemas @ [?ts]"] have "r = None" by simp
    with entry opts True made show ?thesis by (simp add: Let_def)
  next
    case False
    with entry opts rest [of schemas] show ?thesis by (auto simp: Let_def)
  qed
qed

lemma start_tasks_owned:
  assumes "start_tasks cfg forceSyncFlag alterFlag connections ds = (None, tasks, calls)"
    and "\<not> cfg_dryRun cfg" and "\<not> (cfg_smartMigrate cfg \<and> alterFlag)"
    and "(cn, d) \<in> set ds" and "skip_connection d = Inr False"
    and "map_of connections cn = Some conn"
  shows "if connection_dialect d = Some ''postgres'' then SchemasThen conn \<in> set tasks
         else Sync (seq_id conn) forceSyncFlag alterFlag \<in> set calls"
  using assms(1,4)
proof (induction ds arbitrary: tasks calls)
  case Nil
  then show ?case by simp
next
  case (Cons entry ds)
  obtain n c where entry: "entry = (n, c)" by (cases entry)
  obtain r1 tasks1 calls1 where one:
    "start_task cfg forceSyncFlag alterFlag connections n c = (r1, tasks1, calls1)"
    by (cases "start_task cfg forceSyncFlag alterFlag connections n c") auto
  obtain r2 tasks2 calls2 where rest:
    "start_tasks cfg forceSyncFlag alterFlag connections ds = (r2, tasks2, calls2)"
    by (cases "start_tasks cfg forceSyncFlag alterFlag connections ds") auto
  from Cons.prems(1) entry one rest
  have r1: "r1 = None" and r2: "r2 = None"
    and tasks: "tasks = tasks1 @ tasks2" and calls: "calls = calls1 @ calls2"
    by (cases r1; simp)+
  show ?case
  proof (cases "(cn, d) = (n, c)")
    case True
    with one assms(2,3,5,6)
    have "if connection_dialect d = Some ''postgres'' then SchemasThen conn \<in> set tasks1
          else Sync (seq_id conn) forceSyncFlag alterFlag \<in> set calls1"
      by (auto simp: start_task_def)
    with tasks calls show ?thesis by auto
  next
    case False
    with Cons.prems(2) entry have "(cn, d) \<in> set ds" by auto
    from Cons.IH [OF _ this, of tasks2 calls2] rest r2
    have "if connection_dialect d = Some ''postgres'' then SchemasThen conn \<in> set tasks2
          else Sync (seq_id conn) forceSyncFlag alterFlag \<in> set calls2"
      by simp
    with tasks calls show ?thesis by auto
  qed
qed

lemma promise_all_schemas_then:
  assumes "SchemasThen conn \<in> set tasks"
    and "db_showAllSchemas db (seq_id conn) = Inr schemas"
    and "\<forall>(n, m) \<in> set models. options m \<noteq> None"
  shows "Sync (seq_id conn) forceSyncFlag alterFlag
           \<in> set (snd (promise_all db forceSyncFlag alterFlag models tasks))"
  using assms(1)
proof (induction tasks)
  case Nil
  then show ?case by simp
next
  case (Cons task tasks)
  obtain r calls where one: "settle db forceSyncFlag alterFlag models task = (r, calls)"
    by (cases "settle db forceSyncFlag alterFlag models task") auto
  obtain r' calls' where rest: "promise_all db forceSyncFlag alterFlag models tasks = (r', calls')"
    by (cases "promise_all db forceSyncFlag alterFlag models tasks") auto
  show ?case
  proof (cases "task = SchemasThen conn")
    case True
    obtain rc made where made: "create_schemas (seq_id conn) models schemas = (rc, made)"
      by (cases "create_schemas (seq_id conn) models schemas") auto
    with create_schemas_returns [OF assms(3), of "seq_id conn" schemas] have "rc = None" by simp
    with True one assms(2) made
    have "Sync (seq_id conn) forceSyncFlag alterFlag \<in> set calls"
      by (auto simp: settle_def)
    with one rest show ?thesis by simp
  next
    case False
    with Cons.prems have "SchemasThen conn \<in> set tasks" by simp
    from Cons.IH [OF this] rest have "Sync (seq_id conn) forceSyncFlag alterFlag \<in> set calls'"
      by simp
    with one rest show ?thesis by simp
  qed
qed

lemma migrateSchema_syncs_owned:
  assumes run: "ms_outcome (migrateSchema db cfg connections models) = NextCalled r"
    and mode: "\<not> cfg_dryRun cfg" "\<not> (cfg_smartMigrate cfg \<and> cfg_migrate cfg = Some ''alter'')"
              "cfg_migrate cfg \<noteq> Some ''safe''"
    and entry: "configured_datastores cfg = Some ds" "(cn, d) \<in> set ds"
               "skip_connection d = Inr False" "map_of connections cn = Some conn"
    and pg: "connection_dialect d = Some ''postgres'' \<longrightarrow>
               (\<exists>schemas. db_showAllSchemas db (seq_id conn) = Inr schemas) \<and>
               (\<forall>(n, m) \<in> set models. options m \<noteq> None)"
  shows "Sync (seq_id conn) (fst (sync_flags (cfg_migrate cfg))) (snd (sync_flags (cfg_migrate cfg)))
           \<in> set (ms_calls (migrateSchema db cfg connections models))"
proof -
  obtain F A where flags: "sync_flags (cfg_migrate cfg) = (F, A)"
    by (cases "sync_flags (cfg_migrate cfg)") auto
  have A: "A = (cfg_migrate cfg = Some ''alter'')"
    using flags by (auto simp: sync_flags_def split: if_splits)
  obtain r0 tasks calls where started: "start_tasks cfg F A connections ds = (r0, tasks, calls)"
    by (cases "start_tasks cfg F A connections ds") auto
  obtain r' calls' where joined: "promise_all db F A models tasks = (r', calls')"
    by (cases "promise_all db F A models tasks") auto
  have r0: "r0 = None"
    using run mode(3) flags entry(1) started by (cases r0) (simp_all add: migrateSchema_def)
  have all: "ms_calls (migrateSchema db cfg connections models) = calls @ calls'"
    using mode(1,3) flags entry(1) started joined r0 by (simp add: migrateSchema_def)
  have smart: "\<not> (cfg_smartMigrate cfg \<and> A)" using mode(2) A by simp
  from start_tasks_owned [OF started [unfolded r0] mode(1) smart entry(2,3,4)]
  have split: "if connection_dialect d = Some ''postgres'' then SchemasThen conn \<in> set tasks
               else Sync (seq_id conn) F A \<in> set calls" .
  have "Sync (seq_id conn) F A \<in> set (calls @ calls')"
  proof (cases "connection_dialect d = Some ''postgres''")
    case True
    with split have task: "SchemasThen conn \<in> set tasks" by simp
    from pg True obtain schemas where
      listed: "db_showAllSchemas db (seq_id conn) = Inr schemas" and
      owned: "\<forall>(n, m) \<in> set models. options m \<noteq> None" by blast
    from promise_all_schemas_then [OF task listed owned, of F A] joined show ?thesis by simp
  next
    case False
    with split show ?thesis by simp
  qed
  with all flags show ?thesis by simp
qed

text \<open>
  Claim C3.  With \<open>migrate = 'safe'\<close> the run ends in \<open>next()\<close> at once, without a task
  and without a database call.  \<open>'drop'\<close> gives \<open>force = true, alter = false\<close>, \<open>'alter'\<close>
  gives \<open>force = false, alter = true\<close>, every other value gives both \<open>false\<close>.  Every
  \<open>sync\<close> call of a run, on whichever connection, carries the pair of the run's
  \<open>migrate\<close> value; and in a run that reaches \<open>next\<close>, is no dry run and does not take
  the smart-migration branch, \<open>sync\<close> is called with that pair on every owned connection
  (for a Postgres connection: when the schema listing resolves and every model definition
  has \<open>options\<close>).
\<close>

theorem migrate_strategy_flags:
  "(cfg_migrate cfg = Some ''safe'' \<longrightarrow>
      migrateSchema db cfg connections models
        = \<lparr>ms_outcome = NextCalled None, ms_tasks = [], ms_calls = []\<rparr>) \<and>
   sync_flags (Some ''drop'') = (True, False) \<and>
   sync_flags (Some ''alter'') = (False, True) \<and>
   (migrate \<noteq> Some ''drop'' \<and> migrate \<noteq> Some ''alter'' \<longrightarrow> sync_flags migrate = (False, False)) \<and>
   (\<forall>cid forceSyncFlag alterFlag.
      Sync cid forceSyncFlag alterFlag \<in> set (ms_calls (migrateSchema db cfg connections models)) \<longrightarrow>
        (forceSyncFlag, alterFlag) = sync_flags (cfg_migrate cfg)) \<and>
   (\<forall>r ds cn d conn.
      ms_outcome (migrateSchema db cfg connections models) = NextCalled r \<and>
      \<not> cfg_dryRun cfg \<and>
      \<not> (cfg_smartMigrate cfg \<and> cfg_migrate cfg = Some ''alter'') \<and>
      cfg_migrate cfg \<noteq> Some ''safe'' \<and>
      configured_datastores cfg = Some ds \<and> (cn, d) \<in> set ds \<and>
      skip_connection d = Inr False \<and> map_of connections cn = Some conn \<and>
      (connection_dialect d = Some ''postgres'' \<longrightarrow>
         (\<exists>schemas. db_showAllSchemas db (seq_id conn) = Inr schemas) \<and>
         (\<forall>(n, m) \<in> set models. options m \<noteq> None)) \<longrightarrow>
      Sync (seq_id conn) (fst (sync_flags (cfg_migrate cfg))) (snd (sync_flags (cfg_migrate cfg)))
        \<in> set (ms_calls (migrateSchema db cfg connections models)))"
proof (intro conjI allI impI)
  fix cid forceSyncFlag alterFlag
  assume "Sync cid forceSyncFlag alterFlag \<in> set (ms_calls (migrateSchema db cfg connections models))"
  then show "(forceSyncFlag, alterFlag) = sync_flags (cfg_migrate cfg)"
    by (rule migrateSchema_sync_flags)
next
  fix r ds cn d conn
  assume h: "ms_outcome (migrateSchema db cfg connections models) = NextCalled r \<and>
      \<not> cfg_dryRun cfg \<and>
      \<not> (cfg_smartMigrate cfg \<and> cfg_migrate cfg = Some ''alter'') \<and>
      cfg_migrate cfg \<noteq> Some ''safe'' \<and>
      configured_datastores cfg = Some ds \<and> (cn, d) \<in> set ds \<and>
      skip_connection d = Inr False \<and> map_of connections cn = Some conn \<and>
      (connection_dialect d = Some ''postgres'' \<longrightarrow>
         (\<exists>schemas. db_showAllSchemas db (seq_id conn) = Inr schemas) \<and>
         (\<forall>(n, m) \<in> set models. options m \<noteq> None))"
  then show "Sync (seq_id conn) (fst (sync_flags (cfg_migrate cfg))) (snd (sync_flags (cfg_migrate cfg)))
        \<in> set (ms_calls (migrateSchema db cfg connections models))"
    using migrateSchema_syncs_owned [of db cfg connections models r ds cn d conn] by blast
qed (simp_all add: migrateSchema_def sync_flags_def)

theorem migrate_strategy_flags_witness:
  "migrateSchema empty_database (main_config ''safe'' False False) [(''main'', main_sequelize)]
       [(''user'', owned_model ''User'' no_options)]
     = \<lparr>ms_outcome = NextCalled None, ms_tasks = [], ms_calls = []\<rparr> \<and>
   Sync ''main'' True False
     \<in> set (ms_calls (migrateSchema empty_database (main_config ''drop'' False False)
               [(''main'', main_sequelize)] [(''user'', owned_model ''User'' no_options)])) \<and>
   (True, False) = sync_flags (cfg_migrate (main_config ''drop'' False False)) \<and>
   sync_flags (Some ''create'') = (False, False)"
proof -
  let ?conns = "[(''main'', main_sequelize)]"
  let ?models = "[(''user'', owned_model ''User'' no_options)]"
  let ?drop = "main_config ''drop'' False False"
  have safe: "cfg_migrate (main_config ''safe'' False False) = Some ''safe''"
    by (simp add: main_config_def)
  have a: "migrateSchema empty_database (main_config ''safe'' False False) ?conns ?models
     = \<lparr>ms_outcome = NextCalled None, ms_tasks = [], ms_calls = []\<rparr>"
    using migrate_strategy_flags
      [of "main_config ''safe'' False False" empty_database ?conns ?models None,
       THEN conjunct1, rule_format, OF safe] .
  have flags: "sync_flags (cfg_migrate ?drop) = (True, False)"
    by (simp add: main_config_def sync_flags_def)
  have id: "seq_id main_sequelize = ''main''" by (simp add: main_sequelize_def)
  have outcome: "ms_outcome (migrateSchema empty_database ?drop ?conns ?models) = NextCalled None"
    by (simp add: migrateSchema_def main_config_def sync_flags_def configured_datastores_def
        start_task_def skip_connection_def postgres_entry_def truthy_def settle_def
        connection_dialect_def main_sequelize_def empty_database_def owned_model_def
        no_options_def)
  have cond: "ms_outcome (migrateSchema empty_database ?drop ?conns ?models) = NextCalled None \<and>
      \<not> cfg_dryRun ?drop \<and>
      \<not> (cfg_smartMigrate ?drop \<and> cfg_migrate ?drop = Some ''alter'') \<and>
      cfg_migrate ?drop \<noteq> Some ''safe'' \<and>
      configured_datastores ?drop = Some [(''main'', postgres_entry)] \<and>
      (''main'', postgres_entry) \<in> set [(''main'', postgres_entry)] \<and>
      skip_connection postgres_entry = Inr False \<and> map_of ?conns ''main'' = Some main_sequelize \<and>
      (connection_dialect postgres_entry = Some ''postgres'' \<longrightarrow>
         (\<exists>schemas. db_showAllSchemas empty_database (seq_id main_sequelize) = Inr schemas) \<and>
         (\<forall>(n, m) \<in> set ?models. options m \<noteq> None))"
    using outcome
    by (simp add: main_config_def configured_datastores_def skip_connection_def
          postgres_entry_def truthy_def empty_database_def owned_model_def)
  have mem0: "Sync (seq_id main_sequelize) (fst (sync_flags (cfg_migrate ?drop)))
        (snd (sync_flags (cfg_migrate ?drop)))
      \<in> set (ms_calls (migrateSchema empty_database ?drop ?conns ?models))"
    by (rule migrate_strategy_flags
      [of ?drop empty_database ?conns ?models None,
       THEN conjunct2, THEN conjunct2, THEN conjunct2, THEN conjunct2, THEN conjunct2,
       rule_format, OF cond])
  have mem: "Sync ''main'' True False
      \<in> set (ms_calls (migrateSchema empty_database ?drop ?conns ?models))"
    using mem0 unfolding flags id by simp
  have b: "(True, False) = sync_flags (cfg_migrate ?drop)"
    using migrate_strategy_flags
      [of ?drop empty_database ?conns ?models None,
       THEN conjunct2, THEN conjunct2, THEN conjunct2, THEN conjunct2, THEN conjunct1,
       rule_format, OF mem] .
  have other: "Some ''create'' \<noteq> Some ''drop'' \<and> Some ''create'' \<noteq> Some ''alter''" by simp
  have c: "sync_flags (Some ''create'') = (False, False)"
    using migrate_strategy_flags
      [of ?drop empty_database ?conns ?models "Some ''create''",
       THEN conjunct2, THEN conjunct2, THEN conjunct2, THEN conjunct1, rule_format, OF other] .
  from a mem b c show ?thesis by (intro conjI)
qed

end
